theory Spec2Isabelle
  imports Complex_Main
begin

section \<open>Data model (types.ts)\<close>

text \<open>
  The enum \<open>AgentRole\<close>; \<open>role_string\<close> gives the string value of each member, which is
  what a template literal prints.
\<close>

datatype AgentRole = SUPERVISOR | RESEARCHER | ANALYST | WRITER | EDITOR | CODER

fun role_string :: "AgentRole \<Rightarrow> string" where
  "role_string SUPERVISOR = ''Supervisor''"
| "role_string RESEARCHER = ''Researcher''"
| "role_string ANALYST = ''Analyst''"
| "role_string WRITER = ''Writer''"
| "role_string EDITOR = ''Editor''"
| "role_string CODER = ''Coder''"

text \<open>
  \<open>AgentPrompts\<close> is declared \<open>Record<AgentRole, string>\<close>, but an object read back from
  storage is not checked against that type, so a role may be absent: the model is a map,
  and \<open>None\<close> is the \<open>undefined\<close> that JavaScript reads for an absent key.
\<close>

type_synonym AgentPrompts = "AgentRole \<rightharpoonup> string"

datatype task_status = TaskPending | TaskInProgress | TaskCompleted | TaskFailed

text \<open>
  \<open>Task\<close>. The fields \<open>id\<close> and \<open>status\<close> of the source are \<open>id_task\<close> and
  \<open>status_task\<close> here; the optional fields are options.
\<close>

record Task =
  id_task :: string
  title :: string
  description :: string
  assignedAgent :: AgentRole
  status_task :: task_status
  result :: "string option"
  usage :: "int option"

datatype log_type = LogPlan | LogAction | LogResult | LogError | LogInfo

text \<open>
  \<open>LogEntry\<close>. The fields \<open>id\<close> and \<open>type\<close> of the source are \<open>id_log\<close> and
  \<open>type_log\<close>; the only metadata the program ever attaches is \<open>{ sources }\<close>.
\<close>

record LogEntry =
  id_log :: string
  timestamp :: int
  agent :: AgentRole
  message :: string
  type_log :: log_type
  metadata :: "string list option"

datatype period_unit = Seconds | Minutes | Hours

record RateLimitConfig =
  maxTokens :: int
  periodValue :: int
  periodUnit :: period_unit
  autoResumeMinutes :: int

datatype mission_status =
  Idle | Planning | Working | Cooldown | Completed | Error | Paused | AutoPaused

text \<open>
  \<open>AppState\<close>. Token counts and times in milliseconds are integers; an index into the
  task list is a natural number.
\<close>

record AppState =
  status :: mission_status
  tasks :: "Task list"
  logs :: "LogEntry list"
  currentTaskIndex :: nat
  tokenUsage :: int
  windowStartTime :: int
  nextAllowedQueryTime :: int
  finalOutput :: "string option"
  agentPrompts :: AgentPrompts

section \<open>Rate limiter (checkRateLimit)\<close>

text \<open>
  \<open>periodMs\<close> starts at 0 and is set by the one \<open>if\<close> whose unit matches.
\<close>

fun periodMs :: "RateLimitConfig \<Rightarrow> int" where
  "periodMs cfg =
     (case periodUnit cfg of
        Seconds \<Rightarrow> periodValue cfg * 1000
      | Minutes \<Rightarrow> periodValue cfg * 60 * 1000
      | Hours \<Rightarrow> periodValue cfg * 60 * 60 * 1000)"

text \<open>
  \<open>percentageUsed >= 80\<close> with \<open>percentageUsed = (tokenUsage / maxTokens) * 100\<close>.
  The quotient is taken in the reals (rounding of doubles is not modelled). Division by
  zero is written out: in JavaScript \<open>x / 0\<close> is \<open>Infinity\<close> for positive \<open>x\<close>, and
  \<open>NaN\<close> or \<open>-Infinity\<close> otherwise, and only \<open>Infinity\<close> passes the comparison.
\<close>

definition thresholdReached :: "int \<Rightarrow> int \<Rightarrow> bool" where
  "thresholdReached used maxT =
     (if maxT = 0 then 0 < used
      else 80 \<le> (real_of_int used / real_of_int maxT) * 100)"

text \<open>
  \<open>checkRateLimit\<close> reads \<open>tokenUsage\<close> and \<open>windowStartTime\<close> from \<open>stateRef.current\<close>
  (the argument \<open>ref\<close>), and queues a functional update \<open>setState(s => ...)\<close>, which React
  applies to the pending state (the argument \<open>s\<close>). The result is the returned boolean
  and the pending state after the update. \<open>now\<close> is the value of \<open>Date.now()\<close>.
\<close>

definition checkRateLimit ::
  "RateLimitConfig \<Rightarrow> int \<Rightarrow> AppState \<Rightarrow> AppState \<Rightarrow> bool \<times> AppState" where
  "checkRateLimit cfg now ref s =
     (let elapsed = now - windowStartTime ref in
      if elapsed > periodMs cfg then
        (True, s\<lparr>tokenUsage := 0, windowStartTime := now,
                 status := (if status s = Cooldown then Working else status s)\<rparr>)
      else if thresholdReached (tokenUsage ref) (maxTokens cfg) then
        (False, s\<lparr>status := Cooldown,
                  nextAllowedQueryTime := now + (periodMs cfg - elapsed)\<rparr>)
      else (True, s))"

section \<open>Cooldown and auto-resume timer\<close>

text \<open>
  The interval runs while the rendered status is \<open>cooldown\<close> or \<open>auto-paused\<close>.
\<close>

definition timerRunning :: "AppState \<Rightarrow> bool" where
  "timerRunning s = (status s = Cooldown \<or> status s = AutoPaused)"

text \<open>
  One run of the interval callback. \<open>now\<close> is the \<open>Date.now()\<close> of the remaining-time
  computation and \<open>now'\<close> the one inside the update; \<open>ref\<close> is \<open>stateRef.current\<close> and
  \<open>s\<close> the pending state.
\<close>

definition cooldownTick :: "int \<Rightarrow> int \<Rightarrow> AppState \<Rightarrow> AppState \<Rightarrow> AppState" where
  "cooldownTick now now' ref s =
     (let remaining = max 0 (nextAllowedQueryTime ref - now) in
      if remaining \<le> 0 then
        (if status ref \<noteq> Paused then s\<lparr>status := Working, windowStartTime := now'\<rparr> else s)
      else s)"

section \<open>JavaScript strings and numbers\<close>

text \<open>\<open>String.prototype.includes\<close>: the needle occurs somewhere in the string.\<close>

fun includes_str :: "string \<Rightarrow> string \<Rightarrow> bool" where
  "includes_str [] needle = (needle = [])"
| "includes_str (c # cs) needle = (take (length needle) (c # cs) = needle \<or> includes_str cs needle)"

text \<open>
  \<open>toLowerCase\<close> on the ASCII letters. No character outside ASCII lower-cases to a
  letter of the word the program searches for.
\<close>

definition lowerChar :: "char \<Rightarrow> char" where
  "lowerChar c =
     (case map_of (zip ''ABCDEFGHIJKLMNOPQRSTUVWXYZ'' ''abcdefghijklmnopqrstuvwxyz'') c of
        Some l \<Rightarrow> l | None \<Rightarrow> c)"

definition toLowerCase :: "string \<Rightarrow> string" where
  "toLowerCase s = map lowerChar s"

text \<open>A string is falsy when it is \<open>undefined\<close> or empty; a number when it is \<open>undefined\<close> or 0.\<close>

fun truthyStr :: "string option \<Rightarrow> bool" where
  "truthyStr None = False"
| "truthyStr (Some s) = (s \<noteq> [])"

fun truthyNum :: "int option \<Rightarrow> bool" where
  "truthyNum None = False"
| "truthyNum (Some n) = (n \<noteq> 0)"

section \<open>Model gateway (services/geminiService.ts)\<close>

text \<open>
  What \<open>ai.models.generateContent\<close> hands back, as far as the program reads it:
  \<open>response.text\<close>, the candidates with their \<open>finishReason\<close> and the \<open>web.uri\<close> of each
  grounding chunk, and \<open>usageMetadata.totalTokenCount\<close>.
\<close>

record Candidate =
  finishReason :: "string option"
  groundingChunks :: "string option list option"

record Response =
  text_resp :: "string option"
  candidates :: "Candidate list option"
  totalTokenCount :: "int option"

text \<open>
  A thrown value, as far as the program reads it: \<open>status\<close>, \<open>code\<close>, \<open>message\<close>, and the two
  renderings \<open>String(error)\<close> and \<open>JSON.stringify(error)\<close>.
\<close>

record JsError =
  err_status :: "int option"
  err_code :: "int option"
  err_message :: "string option"
  err_string :: string
  err_json :: string

text \<open>\<open>new Error(msg)\<close> for a non-empty message: no status, no code, no enumerable property.\<close>

definition newError :: "string \<Rightarrow> JsError" where
  "newError msg =
     \<lparr>err_status = None, err_code = None, err_message = Some msg,
      err_string = ''Error: '' @ msg, err_json = ''{}''\<rparr>"

datatype api_outcome = Returns Response | Throws JsError

text \<open>
  The key tables of the module: \<open>API_KEYS\<close> (one key per role, possibly empty) and
  \<open>keyPool\<close>. They are built from the build-time environment:
  \<open>roleScopedKeys[role] || sharedKeys[0] || ""\<close> for each role, and the pool is the set of
  the non-empty keys in insertion order (the role keys in the order the object literal
  lists them, then the shared keys).
\<close>

record KeyTables =
  API_KEYS :: "AgentRole \<Rightarrow> string"
  keyPool :: "string list"

definition dedupe :: "string list \<Rightarrow> string list" where
  "dedupe ks = rev (remdups (rev ks))"

definition buildKeyTables :: "(AgentRole \<Rightarrow> string option) \<Rightarrow> string list \<Rightarrow> KeyTables" where
  "buildKeyTables roleScopedKeys sharedKeys =
     (let keyFor = (\<lambda>r. if truthyStr (roleScopedKeys r) then the (roleScopedKeys r)
                         else (case sharedKeys of k # _ \<Rightarrow> k | [] \<Rightarrow> []))
      in \<lparr>API_KEYS = keyFor,
          keyPool = dedupe (filter (\<lambda>k. k \<noteq> [])
                      (map keyFor [SUPERVISOR, CODER, WRITER, RESEARCHER, ANALYST, EDITOR]
                       @ sharedKeys))\<rparr>)"

text \<open>
  \<open>primaryKey = API_KEYS[preferredRole] || keyPool[0]\<close>. The module throws while loading
  when the pool is empty, so \<open>keyPool[0]\<close> is read on a non-empty pool only; the model gives
  the empty key in the case that cannot arise.
\<close>

definition primaryKey :: "KeyTables \<Rightarrow> AgentRole \<Rightarrow> string" where
  "primaryKey K preferredRole =
     (if API_KEYS K preferredRole \<noteq> [] then API_KEYS K preferredRole
      else (case keyPool K of k # _ \<Rightarrow> k | [] \<Rightarrow> []))"

definition executionOrder :: "KeyTables \<Rightarrow> AgentRole \<Rightarrow> string list" where
  "executionOrder K preferredRole =
     primaryKey K preferredRole # filter (\<lambda>k. k \<noteq> primaryKey K preferredRole) (keyPool K)"

text \<open>
  The safety and recitation check on a response: no text, at least one candidate, and the
  first candidate finished for one of the two reasons.
\<close>

definition blockedReason :: "Response \<Rightarrow> string option" where
  "blockedReason response =
     (if \<not> truthyStr (text_resp response) then
        (case candidates response of
           Some (candidate # _) \<Rightarrow>
             (if finishReason candidate = Some ''SAFETY'' \<or> finishReason candidate = Some ''RECITATION''
              then finishReason candidate else None)
         | _ \<Rightarrow> None)
      else None)"

text \<open>
  The \<open>try\<close> block for one key: the call, then the check; the \<open>throw\<close> of the check is
  inside the \<open>try\<close>, so it reaches the same \<open>catch\<close> as an error of the call.
\<close>

definition tryKey :: "(string \<Rightarrow> api_outcome) \<Rightarrow> string \<Rightarrow> JsError + Response" where
  "tryKey call apiKey =
     (case call apiKey of
        Throws e \<Rightarrow> Inl e
      | Returns response \<Rightarrow>
          (case blockedReason response of
             Some reason \<Rightarrow> Inl (newError (''Content generation blocked: '' @ reason))
           | None \<Rightarrow> Inr response))"

text \<open>The classification in the \<open>catch\<close> block.\<close>

definition errorStatus :: "JsError \<Rightarrow> int" where
  "errorStatus e =
     (if truthyNum (err_status e) then the (err_status e)
      else if truthyNum (err_code e) then the (err_code e) else 500)"

definition errorMessage :: "JsError \<Rightarrow> string" where
  "errorMessage e = (case err_message e of Some m \<Rightarrow> m | None \<Rightarrow> [])"

definition errorText :: "JsError \<Rightarrow> string" where
  "errorText e = (if errorMessage e \<noteq> [] then errorMessage e else err_json e)"

definition isGlobalQuotaExhausted :: "JsError \<Rightarrow> bool" where
  "isGlobalQuotaExhausted e =
     (includes_str (errorText e) ''limit: 0'' \<or>
      includes_str (errorText e) ''GenerateRequestsPerDayPerProjectPerModel-FreeTier'')"

definition isQuota :: "JsError \<Rightarrow> bool" where
  "isQuota e =
     (errorStatus e = 429 \<or> includes_str (errorText e) ''429'' \<or>
      includes_str (toLowerCase (errorText e)) ''quota'')"

definition isServer :: "JsError \<Rightarrow> bool" where
  "isServer e = (500 \<le> errorStatus e \<and> errorStatus e < 600)"

definition retriable :: "JsError \<Rightarrow> bool" where
  "retriable e = (\<not> isGlobalQuotaExhausted e \<and> (isQuota e \<or> isServer e))"

text \<open>
  The loop over \<open>executionOrder\<close>. \<open>call\<close> is what \<open>generateContent(params)\<close> does with
  each key for this logical call. The result is the list of keys on which the call was
  issued, in order, and what the function returns (\<open>Inr\<close>) or throws (\<open>Inl\<close>).
\<close>

fun failoverLoop ::
  "(string \<Rightarrow> api_outcome) \<Rightarrow> JsError option \<Rightarrow> string list \<Rightarrow> string list \<times> (JsError + Response)" where
  "failoverLoop call lastError [] =
     ([], Inl (case lastError of
                 Some e \<Rightarrow> e
               | None \<Rightarrow> newError ''All API keys exhausted or service unavailable.''))"
| "failoverLoop call lastError (apiKey # rest) =
     (case tryKey call apiKey of
        Inr response \<Rightarrow> ([apiKey], Inr response)
      | Inl e \<Rightarrow>
          if isGlobalQuotaExhausted e then ([apiKey], Inl e)
          else if isQuota e \<or> isServer e then
            (case failoverLoop call (Some e) rest of (tried, r) \<Rightarrow> (apiKey # tried, r))
          else ([apiKey], Inl e))"

definition generateContentWithFallback ::
  "KeyTables \<Rightarrow> (string \<Rightarrow> api_outcome) \<Rightarrow> AgentRole \<Rightarrow> string list \<times> (JsError + Response)" where
  "generateContentWithFallback K call preferredRole =
     failoverLoop call None (executionOrder K preferredRole)"

section \<open>Template literals\<close>

definition nl :: string where
  "nl = [CHR 0x0A]"

definition dq :: string where
  "dq = [CHR 0x22]"

definition sq :: string where
  "sq = [CHR 0x27]"

text \<open>\<open>Array.prototype.join\<close>.\<close>

fun join :: "string \<Rightarrow> string list \<Rightarrow> string" where
  "join sep [] = []"
| "join sep [x] = x"
| "join sep (x # y # ys) = x @ sep @ join sep (y # ys)"

text \<open>A whole number printed by a template literal.\<close>

definition digitChar :: "nat \<Rightarrow> char" where
  "digitChar d = ''0123456789'' ! d"

fun showNat :: "nat \<Rightarrow> string" where
  "showNat n = (if n < 10 then [digitChar n] else showNat (n div 10) @ [digitChar (n mod 10)])"

declare showNat.simps [simp del]

definition showInt :: "int \<Rightarrow> string" where
  "showInt i = (if i < 0 then ''-'' @ showNat (nat (- i)) else showNat (nat i))"

text \<open>A string-valued property printed by a template literal: \<open>undefined\<close> prints as such.\<close>

definition showOpt :: "string option \<Rightarrow> string" where
  "showOpt x = (case x of Some s \<Rightarrow> s | None \<Rightarrow> ''undefined'')"

text \<open>\<open>usageMetadata?.totalTokenCount || 0\<close>.\<close>

definition usageOf :: "Response \<Rightarrow> int" where
  "usageOf response = (if truthyNum (totalTokenCount response) then the (totalTokenCount response) else 0)"

text \<open>\<open>response.text || fallback\<close>.\<close>

definition textOr :: "Response \<Rightarrow> string \<Rightarrow> string" where
  "textOr response fallback =
     (if truthyStr (text_resp response) then the (text_resp response) else fallback)"

section \<open>Agent functions (services/geminiService.ts)\<close>

text \<open>
  An element of the parsed JSON array: the responseSchema of both planning calls requires
  the three properties, and they are the only ones read. \<open>JSON.parse\<close> is a parameter
  \<open>parse\<close> of the functions below; \<open>Inl\<close> is the \<open>SyntaxError\<close> it throws.
\<close>

record RawTask =
  raw_title :: string
  raw_description :: string
  raw_assignedAgent :: AgentRole

text \<open>The id of a new task: \<open>`task-${Date.now()}-${index}`\<close>.\<close>

definition newTaskId :: "int \<Rightarrow> nat \<Rightarrow> string" where
  "newTaskId now index = ''task-'' @ showInt now @ ''-'' @ showNat index"

text \<open>
  A new pending task from an element of a plan; \<open>idNow i\<close> is the \<open>Date.now()\<close> read while
  mapping the element at index \<open>i\<close>.
\<close>

definition pendingTask :: "(nat \<Rightarrow> int) \<Rightarrow> nat \<Rightarrow> RawTask \<Rightarrow> Task" where
  "pendingTask idNow i t =
     \<lparr>id_task = newTaskId (idNow i) i, title = raw_title t, description = raw_description t,
      assignedAgent = raw_assignedAgent t, status_task = TaskPending, result = None, usage = None\<rparr>"

definition pendingTasks :: "(nat \<Rightarrow> int) \<Rightarrow> RawTask list \<Rightarrow> Task list" where
  "pendingTasks idNow raws = map (\<lambda>(i, t). pendingTask idNow i t) (enumerate 0 raws)"

record PlanResult =
  plan_tasks :: "Task list"
  plan_usage :: int
  plan_prompt :: string

definition planPrompt :: "string \<Rightarrow> AgentPrompts \<Rightarrow> string" where
  "planPrompt userQuery prompts =
     showOpt (prompts SUPERVISOR) @ nl @ nl @ ''User Request: '' @ dq @ userQuery @ dq
       @ nl @ nl @ ''Return a JSON array of tasks.''"

text \<open>
  \<open>createSupervisorPlan\<close>: an error of the gateway or of \<open>JSON.parse\<close> is logged and
  thrown again.
\<close>

definition createSupervisorPlan ::
  "KeyTables \<Rightarrow> (string \<Rightarrow> api_outcome) \<Rightarrow> (string \<Rightarrow> JsError + RawTask list) \<Rightarrow> (nat \<Rightarrow> int)
     \<Rightarrow> string \<Rightarrow> AgentPrompts \<Rightarrow> JsError + PlanResult" where
  "createSupervisorPlan K call parse idNow userQuery prompts =
     (case snd (generateContentWithFallback K call SUPERVISOR) of
        Inl e \<Rightarrow> Inl e
      | Inr response \<Rightarrow>
          (case parse (textOr response ''[]'') of
             Inl e \<Rightarrow> Inl e
           | Inr tasksRaw \<Rightarrow>
               Inr \<lparr>plan_tasks = pendingTasks idNow tasksRaw, plan_usage = usageOf response,
                    plan_prompt = planPrompt userQuery prompts\<rparr>))"

text \<open>
  \<open>updateSupervisorPlan\<close> returns \<open>tasks: any[]\<close>: the parsed array, or on any error the
  \<open>remainingTasks\<close> it was given. Its caller reads \<open>title\<close>, \<open>description\<close> and
  \<open>assignedAgent\<close> of each element and nothing else, so the model returns these three.
\<close>

definition rawOfTask :: "Task \<Rightarrow> RawTask" where
  "rawOfTask t =
     \<lparr>raw_title = title t, raw_description = description t, raw_assignedAgent = assignedAgent t\<rparr>"

record ReplanResult =
  replan_tasks :: "RawTask list"
  replan_usage :: int
  replan_prompt :: string

definition completedLine :: "Task \<Rightarrow> string" where
  "completedLine t =
     ''- ['' @ role_string (assignedAgent t) @ ''] '' @ title t @ '': ''
       @ (if truthyStr (result t) then take 300 (the (result t)) @ ''...'' else ''Done'')"

definition remainingLine :: "Task \<Rightarrow> string" where
  "remainingLine t = ''- '' @ title t @ '' ('' @ role_string (assignedAgent t) @ '')''"

definition maxNewTasks :: nat where
  "maxNewTasks = 5"

definition replanPrompt :: "string \<Rightarrow> Task list \<Rightarrow> Task list \<Rightarrow> AgentPrompts \<Rightarrow> string" where
  "replanPrompt userQuery completedTasks remainingTasks prompts =
     showOpt (prompts SUPERVISOR) @ nl
     @ ''    '' @ nl
     @ ''    Original Objective: '' @ dq @ userQuery @ dq @ nl
     @ nl
     @ ''    Progress so far (Completed Tasks):'' @ nl
     @ ''    '' @ join nl (map completedLine completedTasks) @ nl
     @ nl
     @ ''    Current Remaining Plan:'' @ nl
     @ ''    '' @ join nl (map remainingLine remainingTasks) @ nl
     @ nl
     @ ''    Your Task:'' @ nl
     @ ''    Evaluate the progress. '' @ nl
     @ ''    1. If findings require new tasks, add them to the remaining list.'' @ nl
     @ ''    2. If the current plan is valid, return it as is.'' @ nl
     @ ''    3. You can reorder tasks.'' @ nl
     @ nl
     @ ''    CRITICAL SCOPE CONSTRAINTS:'' @ nl
     @ ''    - You are strictly limited to adding a MAXIMUM of '' @ showNat maxNewTasks
         @ '' new tasks.'' @ nl
     @ ''    - Do NOT expand the scope unless absolutely critical for the objective.'' @ nl
     @ ''    - Prefer completing the current plan over adding '' @ sq @ ''nice-to-have'' @ sq
         @ '' steps.'' @ nl
     @ nl
     @ ''    Return a JSON array of the *remaining* tasks (do not include completed ones).''"

definition updateSupervisorPlan ::
  "KeyTables \<Rightarrow> (string \<Rightarrow> api_outcome) \<Rightarrow> (string \<Rightarrow> JsError + RawTask list)
     \<Rightarrow> string \<Rightarrow> Task list \<Rightarrow> Task list \<Rightarrow> AgentPrompts \<Rightarrow> ReplanResult" where
  "updateSupervisorPlan K call parse userQuery completedTasks remainingTasks prompts =
     (let fullPrompt = replanPrompt userQuery completedTasks remainingTasks prompts;
          fallback = \<lparr>replan_tasks = map rawOfTask remainingTasks, replan_usage = 0,
                      replan_prompt = fullPrompt\<rparr>
      in case snd (generateContentWithFallback K call SUPERVISOR) of
           Inl e \<Rightarrow> fallback
         | Inr response \<Rightarrow>
             (case parse (textOr response ''[]'') of
                Inl e \<Rightarrow> fallback
              | Inr tasksRaw \<Rightarrow>
                  \<lparr>replan_tasks = tasksRaw, replan_usage = usageOf response,
                   replan_prompt = fullPrompt\<rparr>))"

record ExecResult =
  exec_text :: string
  exec_sources :: "string list"
  exec_usage :: int
  exec_prompt :: string

definition agentPrompt :: "AgentRole \<Rightarrow> Task \<Rightarrow> string \<Rightarrow> AgentPrompts \<Rightarrow> string" where
  "agentPrompt agnt task context prompts =
     showOpt (prompts agnt) @ nl
     @ ''    '' @ nl
     @ ''    Your Task: '' @ title task @ nl
     @ ''    Details: '' @ description task @ nl
     @ nl
     @ ''    Context (Results from previous steps):'' @ nl
     @ ''    '' @ (if context \<noteq> [] then context
                  else ''No previous context. You are starting the workflow.'') @ nl
     @ ''    ''"

text \<open>The \<open>web.uri\<close> of every grounding chunk of the first candidate that has one.\<close>

definition sourcesOf :: "Response \<Rightarrow> string list" where
  "sourcesOf response =
     (case candidates response of
        Some (c # _) \<Rightarrow>
          (case groundingChunks c of
             Some chunks \<Rightarrow> map the (filter truthyStr chunks)
           | None \<Rightarrow> [])
      | _ \<Rightarrow> [])"

definition executeAgentTask ::
  "KeyTables \<Rightarrow> (string \<Rightarrow> api_outcome) \<Rightarrow> AgentRole \<Rightarrow> Task \<Rightarrow> string \<Rightarrow> AgentPrompts
     \<Rightarrow> JsError + ExecResult" where
  "executeAgentTask K call agnt task context prompts =
     (case snd (generateContentWithFallback K call agnt) of
        Inl e \<Rightarrow> Inl e
      | Inr response \<Rightarrow>
          Inr \<lparr>exec_text = textOr response ''Task completed, but no text output generated.'',
               exec_sources = sourcesOf response, exec_usage = usageOf response,
               exec_prompt = agentPrompt agnt task context prompts\<rparr>)"

record FinalResult =
  final_text :: string
  final_usage :: int
  final_prompt :: string

definition finalPrompt :: "string \<Rightarrow> AgentPrompts \<Rightarrow> string" where
  "finalPrompt context prompts =
     showOpt (prompts SUPERVISOR) @ nl
     @ ''     '' @ nl
     @ ''     The team has finished all tasks.'' @ nl
     @ ''     Here is the accumulated work logs:'' @ nl
     @ ''     '' @ context @ nl
     @ nl
     @ ''     Please compile this into a final, polished output for the user. '' @ nl
     @ ''     Format it nicely with Markdown.''"

text \<open>\<open>superviseFinalOutput\<close> catches every error and returns it as the text.\<close>

definition superviseFinalOutput ::
  "KeyTables \<Rightarrow> (string \<Rightarrow> api_outcome) \<Rightarrow> string \<Rightarrow> AgentPrompts \<Rightarrow> FinalResult" where
  "superviseFinalOutput K call context prompts =
     (case snd (generateContentWithFallback K call SUPERVISOR) of
        Inr response \<Rightarrow>
          \<lparr>final_text = textOr response ''Final output generation failed.'',
           final_usage = usageOf response, final_prompt = finalPrompt context prompts\<rparr>
      | Inl e \<Rightarrow>
          \<lparr>final_text = ''Error generating final output: '' @ err_string e,
           final_usage = 0, final_prompt = finalPrompt context prompts\<rparr>)"

section \<open>Mission state machine (App component)\<close>

text \<open>
  \<open>addLog\<close> appends one entry. Its \<open>id\<close> comes from \<open>Math.random()\<close> and its \<open>timestamp\<close>
  from \<open>Date.now()\<close>: \<open>stamp n\<close> is the pair that the entry appended at position \<open>n\<close> of
  the log receives.
\<close>

definition addLog ::
  "(nat \<Rightarrow> string \<times> int) \<Rightarrow> AgentRole \<Rightarrow> string \<Rightarrow> log_type \<Rightarrow> string list option
     \<Rightarrow> AppState \<Rightarrow> AppState" where
  "addLog stamp agnt msg ty meta s =
     s\<lparr>logs := logs s @
          [\<lparr>id_log = fst (stamp (length (logs s))), timestamp = snd (stamp (length (logs s))),
            agent = agnt, message = msg, type_log = ty, metadata = meta\<rparr>]\<rparr>"

text \<open>\<open>xs.map((t, i) => i === index ? f(t) : t)\<close>.\<close>

definition mapAt :: "nat \<Rightarrow> ('a \<Rightarrow> 'a) \<Rightarrow> 'a list \<Rightarrow> 'a list" where
  "mapAt index f xs = (if index < length xs then xs[index := f (xs ! index)] else xs)"

text \<open>
  What one run of \<open>processNextStep\<close> takes from outside the state: the key tables, the
  rate-limit configuration and the query held by the component, the clock readings of the
  first and of the second rate-limit check, the clock read while building task ids, the
  stamps of the log entries, what the model does for the first logical call of the step
  (planning, task execution or synthesis) and for the re-planning call, and \<open>JSON.parse\<close>.
\<close>

record StepEnv =
  env_keys :: KeyTables
  env_config :: RateLimitConfig
  env_query :: string
  now1 :: int
  now2 :: int
  idNow :: "nat \<Rightarrow> int"
  stamp :: "nat \<Rightarrow> string \<times> int"
  call1 :: "string \<Rightarrow> api_outcome"
  call2 :: "string \<Rightarrow> api_outcome"
  parse :: "string \<Rightarrow> JsError + RawTask list"

text \<open>The \<open>catch\<close> block of \<open>processNextStep\<close>; both branches pause the mission.\<close>

definition stepCatch :: "(nat \<Rightarrow> string \<times> int) \<Rightarrow> JsError \<Rightarrow> AppState \<Rightarrow> AppState" where
  "stepCatch stmp err s =
     (let errMsg = (if truthyStr (err_message err) then the (err_message err) else []);
          quota = (err_status err = Some 429 \<or> includes_str errMsg ''429''
                   \<or> includes_str errMsg ''quota'')
      in if quota then
           (addLog stmp SUPERVISOR
              ''CRITICAL: Rate limit exceeded. Pausing mission. Resume when quota resets.''
              LogError None s)\<lparr>status := Paused\<rparr>
         else
           (addLog stmp SUPERVISOR (''Error: '' @ errMsg) LogError None s)\<lparr>status := Paused\<rparr>)"

text \<open>
  In the three phases below \<open>current\<close> is the snapshot \<open>stateRef.current\<close> taken when the
  step starts, and \<open>s\<close> is the pending state that every \<open>setState(s => ...)\<close> updates in
  turn.
\<close>

definition planningPhase :: "StepEnv \<Rightarrow> AppState \<Rightarrow> AppState \<Rightarrow> AppState" where
  "planningPhase E current s =
     (let s2 = addLog (stamp E) SUPERVISOR
                 ''Thinking... Analyzing request to build granular plan.'' LogPlan None s
      in case createSupervisorPlan (env_keys E) (call1 E) (parse E) (idNow E) (env_query E)
                (agentPrompts current) of
           Inl err \<Rightarrow> stepCatch (stamp E) err s2
         | Inr r \<Rightarrow>
             (let s3 = addLog (stamp E) SUPERVISOR
                         (''[SYSTEM] Supervisor Planning Prompt:'' @ nl @ plan_prompt r)
                         LogInfo None s2;
                  s4 = s3\<lparr>status := Working, tasks := plan_tasks r, currentTaskIndex := 0,
                          tokenUsage := tokenUsage s3 + plan_usage r\<rparr>
              in addLog (stamp E) SUPERVISOR
                   (''Plan created with '' @ showNat (length (plan_tasks r)) @ '' tasks. (Used ''
                      @ showInt (plan_usage r) @ '' tokens)'')
                   LogPlan None s4))"

definition synthesisContext :: "Task list \<Rightarrow> string" where
  "synthesisContext ts =
     join (nl @ nl) (map (\<lambda>t. ''Task: '' @ title t @ nl @ ''Result: '' @ showOpt (result t)) ts)"

text \<open>
  The second rate-limit check of the synthesis branch runs in the same synchronous stretch
  as the first, so it still reads the snapshot \<open>current\<close>.
\<close>

definition synthesisPhase :: "StepEnv \<Rightarrow> AppState \<Rightarrow> AppState \<Rightarrow> AppState" where
  "synthesisPhase E current s =
     (let s2 = addLog (stamp E) SUPERVISOR ''All tasks completed. Compiling final report...''
                 LogInfo None s
      in case checkRateLimit (env_config E) (now2 E) current s2 of
           (False, s3) \<Rightarrow> s3
         | (True, s3) \<Rightarrow>
             (let r = superviseFinalOutput (env_keys E) (call1 E)
                        (synthesisContext (tasks current)) (agentPrompts current);
                  s4 = addLog (stamp E) SUPERVISOR
                         (''[SYSTEM] Final Synthesis Prompt:'' @ nl @ final_prompt r) LogInfo None s3;
                  s5 = s4\<lparr>status := Completed, finalOutput := Some (final_text r),
                          tokenUsage := tokenUsage s4 + final_usage r\<rparr>
              in addLog (stamp E) SUPERVISOR
                   (''Final output delivered. (Used '' @ showInt (final_usage r) @ '' tokens)'')
                   LogResult None s5))"

definition executionContext :: "Task list \<Rightarrow> string" where
  "executionContext ts =
     join (nl @ nl)
       (map (\<lambda>t. ''[Completed Task: '' @ title t @ '']'' @ nl @ ''Result: '' @ showOpt (result t)) ts)"

text \<open>The last update of a task-execution step.\<close>

definition commitTask :: "int \<Rightarrow> int \<Rightarrow> Task list \<Rightarrow> AppState \<Rightarrow> AppState" where
  "commitTask resultUsage additionalUsage nextTasks s =
     s\<lparr>currentTaskIndex := currentTaskIndex s + 1,
       tokenUsage := tokenUsage s + resultUsage + additionalUsage,
       tasks := nextTasks\<rparr>"

text \<open>
  The body of the re-planning \<open>if\<close>: the new remaining tasks are built from what
  \<open>updateSupervisorPlan\<close> returned and appended to the completed prefix.
\<close>

definition replanPhase ::
  "StepEnv \<Rightarrow> AppState \<Rightarrow> nat \<Rightarrow> Task list \<Rightarrow> AppState \<Rightarrow> Task list \<times> int \<times> AppState" where
  "replanPhase E current taskIndex updatedTasksWithCurrentResult s =
     (let s2 = addLog (stamp E) SUPERVISOR
                 ''Evaluating progress and checking if plan needs updates...'' LogPlan None s;
          completedTasks = take (taskIndex + 1) updatedTasksWithCurrentResult;
          remainingTasks = drop (taskIndex + 1) updatedTasksWithCurrentResult;
          replanResult = updateSupervisorPlan (env_keys E) (call2 E) (parse E) (env_query E)
                           completedTasks remainingTasks (agentPrompts current);
          s3 = addLog (stamp E) SUPERVISOR
                 (''[SYSTEM] Re-planning Prompt:'' @ nl @ replan_prompt replanResult) LogInfo None s2;
          newRemainingTasks = pendingTasks (idNow E) (replan_tasks replanResult);
          s4 = addLog (stamp E) SUPERVISOR
                 (''Plan updated. Remaining tasks: '' @ showNat (length newRemainingTasks)
                    @ '' (Used '' @ showInt (replan_usage replanResult) @ '' tokens)'')
                 LogPlan None s3
      in (completedTasks @ newRemainingTasks, replan_usage replanResult, s4))"

text \<open>The current task with the result of its execution: \<open>{ ...t, status: 'completed', result, usage }\<close>.\<close>

definition completedWith :: "ExecResult \<Rightarrow> Task \<Rightarrow> Task" where
  "completedWith r t =
     t\<lparr>status_task := TaskCompleted, result := Some (exec_text r), usage := Some (exec_usage r)\<rparr>"

text \<open>
  Task execution. The re-planning check runs after the awaited model call, when the updates
  queued before the call have been committed and \<open>stateRef.current\<close> has caught up with
  them: it reads the pending state.
\<close>

definition executePhase :: "StepEnv \<Rightarrow> AppState \<Rightarrow> AppState \<Rightarrow> AppState" where
  "executePhase E current s =
     (let taskIndex = currentTaskIndex current;
          task = tasks current ! taskIndex;
          s2 = s\<lparr>tasks := mapAt taskIndex (\<lambda>t. t\<lparr>status_task := TaskInProgress\<rparr>) (tasks s)\<rparr>;
          s3 = addLog (stamp E) SUPERVISOR
                 (''Starting Task '' @ showNat (taskIndex + 1) @ ''/''
                    @ showNat (length (tasks current)) @ '': '' @ title task
                    @ '' ('' @ role_string (assignedAgent task) @ '')'')
                 LogAction None s2;
          context = executionContext (take taskIndex (tasks current))
      in case executeAgentTask (env_keys E) (call1 E) (assignedAgent task) task context
                (agentPrompts current) of
           Inl err \<Rightarrow> stepCatch (stamp E) err s3
         | Inr r \<Rightarrow>
             (let s4 = addLog (stamp E) (assignedAgent task)
                         (''[SYSTEM] Agent Prompt:'' @ nl @ exec_prompt r) LogInfo None s3;
                  s5 = addLog (stamp E) (assignedAgent task)
                         (''[SYSTEM] Agent Output:'' @ nl @ exec_text r) LogInfo None s4;
                  s6 = addLog (stamp E) (assignedAgent task)
                         (''Task Complete. (Used '' @ showInt (exec_usage r) @ '' tokens)'')
                         LogResult (Some (exec_sources r)) s5;
                  updatedTasksWithCurrentResult = mapAt taskIndex (completedWith r) (tasks current);
                  remainingCount = int (length updatedTasksWithCurrentResult) - (int taskIndex + 1)
              in if remainingCount > 0 then
                   (case checkRateLimit (env_config E) (now2 E) s6 s6 of
                      (True, s7) \<Rightarrow>
                        (case replanPhase E current taskIndex updatedTasksWithCurrentResult s7 of
                           (nextTasks, additionalUsage, s8) \<Rightarrow>
                             commitTask (exec_usage r) additionalUsage nextTasks s8)
                    | (False, s7) \<Rightarrow>
                        commitTask (exec_usage r) 0 updatedTasksWithCurrentResult s7)
                 else commitTask (exec_usage r) 0 updatedTasksWithCurrentResult s6))"

text \<open>
  \<open>processNextStep\<close>, from the committed state \<open>current\<close> to the state committed when the
  step has run, for a step that runs alone: every update it queues lands on the state it
  started from.
\<close>

definition processNextStep :: "StepEnv \<Rightarrow> AppState \<Rightarrow> AppState" where
  "processNextStep E current =
     (if status current \<noteq> Working \<and> status current \<noteq> Planning then current
      else case checkRateLimit (env_config E) (now1 E) current current of
             (False, s) \<Rightarrow> s
           | (True, s) \<Rightarrow>
               if status current = Planning then planningPhase E current s
               else if currentTaskIndex current \<ge> length (tasks current)
                 then synthesisPhase E current s
               else executePhase E current s)"

section \<open>Defaults and handlers\<close>

text \<open>\<open>DEFAULT_AGENT_PROMPTS\<close> (constants.ts): one instruction text for every role.\<close>

fun defaultPromptText :: "AgentRole \<Rightarrow> string" where
  "defaultPromptText SUPERVISOR =
     ''You are an expert Supervisor Agent. '' @ nl
     @ ''Your goal is to break down the user'' @ sq @ ''s complex request into a highly detailed, granular list of sequential tasks.'' @ nl
     @ nl
     @ ''Rules:'' @ nl
     @ ''1. Break the workflow into very small, granular steps. '' @ nl
     @ ''2. You MUST generate between 10 and 50 tasks depending on complexity. '' @ nl
     @ ''3. The first task is usually for the Researcher.'' @ nl
     @ ''4. Assign the most appropriate agent for each step.'' @ nl
     @ ''5. The tasks must be strictly sequential.'' @ nl
     @ ''6. Provide a clear, actionable description for each task.'' @ nl
     @ ''7. CRITICAL CONSTRAINT: You are an AI model. You CANNOT perform physical experiments, make phone calls, conduct primary field research, or interact with the physical world. Limit tasks to digital research, data analysis, coding, and writing.''"
| "defaultPromptText RESEARCHER =
     ''You are a Researcher Agent.'' @ nl
     @ ''Your goal is to find accurate, up-to-date information using the Google Search tool.'' @ nl
     @ ''Verify sources where possible. Provide comprehensive findings.''"
| "defaultPromptText ANALYST =
     ''You are an Analyst Agent.'' @ nl
     @ ''Your goal is to process data, identify patterns, and derive insights from the provided context.'' @ nl
     @ ''Be logical, objective, and detailed.''"
| "defaultPromptText WRITER =
     ''You are a Writer Agent.'' @ nl
     @ ''Your goal is to draft high-quality content based on the research and analysis provided.'' @ nl
     @ ''Adapt your tone to the requirement.''"
| "defaultPromptText EDITOR =
     ''You are an Editor Agent.'' @ nl
     @ ''Your goal is to refine, polish, and structure content.'' @ nl
     @ ''Check for clarity, grammar, and flow.''"
| "defaultPromptText CODER =
     ''You are a Coder Agent.'' @ nl
     @ ''Your goal is to write clean, efficient, and well-commented code.'' @ nl
     @ ''Explain your logic.''"

definition DEFAULT_AGENT_PROMPTS :: AgentPrompts where
  "DEFAULT_AGENT_PROMPTS = (\<lambda>r. Some (defaultPromptText r))"

text \<open>\<open>INITIAL_STATE\<close>; \<open>t0\<close> is the \<open>Date.now()\<close> read when the module is loaded.\<close>

definition INITIAL_STATE :: "int \<Rightarrow> AppState" where
  "INITIAL_STATE t0 =
     \<lparr>status = Idle, tasks = [], logs = [], currentTaskIndex = 0, tokenUsage = 0,
      windowStartTime = t0, nextAllowedQueryTime = 0, finalOutput = None,
      agentPrompts = DEFAULT_AGENT_PROMPTS\<rparr>"

text \<open>
  \<open>handleRestart\<close>: \<open>confirmed\<close> is the answer to the confirmation dialog and \<open>now\<close> the
  \<open>Date.now()\<close> of the new window.
\<close>

definition handleRestart :: "bool \<Rightarrow> int \<Rightarrow> int \<Rightarrow> AppState \<Rightarrow> AppState" where
  "handleRestart confirmed t0 now s =
     (if confirmed then
        (INITIAL_STATE t0)\<lparr>status := Planning, windowStartTime := now,
                           agentPrompts := agentPrompts s\<rparr>
      else s)"

definition handlePause :: "RateLimitConfig \<Rightarrow> int \<Rightarrow> AppState \<Rightarrow> AppState" where
  "handlePause cfg now s =
     (if autoResumeMinutes cfg > 0 then
        s\<lparr>status := AutoPaused,
          nextAllowedQueryTime := now + autoResumeMinutes cfg * 60 * 1000\<rparr>
      else s\<lparr>status := Paused\<rparr>)"

definition handleStopTimer :: "AppState \<Rightarrow> AppState" where
  "handleStopTimer s = s\<lparr>status := Paused\<rparr>"

definition handleResume :: "AppState \<Rightarrow> AppState" where
  "handleResume s = s\<lparr>status := (if length (tasks s) > 0 then Working else Planning)\<rparr>"

text \<open>
  The \<open>state\<close> of a session parsed from storage. Nothing checks the parsed object, so every
  property may be missing, and the \<open>agentPrompts\<close> object may lack roles.
\<close>

record StoredState =
  st_status :: "mission_status option"
  st_tasks :: "Task list option"
  st_logs :: "LogEntry list option"
  st_currentTaskIndex :: "nat option"
  st_tokenUsage :: "int option"
  st_windowStartTime :: "int option"
  st_nextAllowedQueryTime :: "int option"
  st_finalOutput :: "string option"
  st_agentPrompts :: "AgentPrompts option"

record SavedSession =
  id_session :: string
  timestamp_session :: int
  query_session :: string
  config_session :: RateLimitConfig
  state_session :: StoredState

text \<open>
  The merge both load paths write:
  \<open>{ ...INITIAL_STATE, ...saved.state, agentPrompts: saved.state.agentPrompts ||
  INITIAL_STATE.agentPrompts, status: 'paused' }\<close>. A property of the stored state
  overrides the initial one when it is there; an object is truthy whatever its keys.
\<close>

definition orElse :: "'a option \<Rightarrow> 'a \<Rightarrow> 'a" where
  "orElse x d = (case x of Some v \<Rightarrow> v | None \<Rightarrow> d)"

definition mergeLoaded :: "int \<Rightarrow> StoredState \<Rightarrow> AppState" where
  "mergeLoaded t0 st =
     \<lparr>status = Paused,
      tasks = orElse (st_tasks st) (tasks (INITIAL_STATE t0)),
      logs = orElse (st_logs st) (logs (INITIAL_STATE t0)),
      currentTaskIndex = orElse (st_currentTaskIndex st) (currentTaskIndex (INITIAL_STATE t0)),
      tokenUsage = orElse (st_tokenUsage st) (tokenUsage (INITIAL_STATE t0)),
      windowStartTime = orElse (st_windowStartTime st) (windowStartTime (INITIAL_STATE t0)),
      nextAllowedQueryTime =
        orElse (st_nextAllowedQueryTime st) (nextAllowedQueryTime (INITIAL_STATE t0)),
      finalOutput = (case st_finalOutput st of Some v \<Rightarrow> Some v
                     | None \<Rightarrow> finalOutput (INITIAL_STATE t0)),
      agentPrompts = orElse (st_agentPrompts st) (agentPrompts (INITIAL_STATE t0))\<rparr>"

text \<open>
  \<open>handleLoadSession\<close>: while a mission is running the user is asked first; \<open>confirmed\<close>
  is the answer.
\<close>

definition handleLoadSession :: "bool \<Rightarrow> int \<Rightarrow> SavedSession \<Rightarrow> AppState \<Rightarrow> AppState" where
  "handleLoadSession confirmed t0 session s =
     (if (status s = Working \<or> status s = Planning) \<and> \<not> confirmed then s
      else mergeLoaded t0 (state_session session))"

text \<open>
  The auto-save check on mount: \<open>stored\<close> is the session parsed from the auto-save slot,
  if there is one; an interrupted mission is resumed when the user confirms.
\<close>

definition loadAutosave :: "bool \<Rightarrow> int \<Rightarrow> SavedSession option \<Rightarrow> AppState \<Rightarrow> AppState" where
  "loadAutosave confirmed t0 stored s =
     (case stored of
        None \<Rightarrow> s
      | Some saved \<Rightarrow>
          if st_status (state_session saved) \<noteq> Some Idle
             \<and> st_status (state_session saved) \<noteq> Some Completed
          then (if confirmed then mergeLoaded t0 (state_session saved) else s)
          else s)"

section \<open>Steps in flight\<close>

text \<open>
  \<open>processNextStep\<close> above is a step that runs alone: nothing else updates the state
  between its start and its last update. The component does not enforce that. The pacing
  effect lists the status, the task index and the token count as dependencies: it runs
  again after every render in which one of them changed, and when the status is then
  planning or working it schedules \<open>processNextStep\<close> one second later, whether or not a
  step is still waiting for its model call. \<open>old\<close> and \<open>new\<close> are the states of two
  successive renders, and the triples are the dependency arrays that React compares.
\<close>

definition pacingRearmed :: "AppState \<Rightarrow> AppState \<Rightarrow> bool" where
  "pacingRearmed old new =
     ((status new = Planning \<or> status new = Working)
      \<and> (status new, currentTaskIndex new, tokenUsage new)
          \<noteq> (status old, currentTaskIndex old, tokenUsage old))"

text \<open>
  The task-execution branch in its two halves, cut at the \<open>await\<close>: the updates queued
  before the call, the awaited call, and the updates queued when it has returned. As in
  \<open>executePhase\<close>, \<open>current\<close> is the snapshot the step took and the last argument the
  pending state.
\<close>

definition executeBefore :: "StepEnv \<Rightarrow> AppState \<Rightarrow> AppState \<Rightarrow> AppState" where
  "executeBefore E current s =
     (let taskIndex = currentTaskIndex current;
          task = tasks current ! taskIndex;
          s2 = s\<lparr>tasks := mapAt taskIndex (\<lambda>t. t\<lparr>status_task := TaskInProgress\<rparr>) (tasks s)\<rparr>
      in addLog (stamp E) SUPERVISOR
           (''Starting Task '' @ showNat (taskIndex + 1) @ ''/''
              @ showNat (length (tasks current)) @ '': '' @ title task
              @ '' ('' @ role_string (assignedAgent task) @ '')'')
           LogAction None s2)"

definition awaitedExecution :: "StepEnv \<Rightarrow> AppState \<Rightarrow> JsError + ExecResult" where
  "awaitedExecution E current =
     (let taskIndex = currentTaskIndex current;
          task = tasks current ! taskIndex;
          context = executionContext (take taskIndex (tasks current))
      in executeAgentTask (env_keys E) (call1 E) (assignedAgent task) task context
           (agentPrompts current))"

definition executeAfter :: "StepEnv \<Rightarrow> AppState \<Rightarrow> ExecResult \<Rightarrow> AppState \<Rightarrow> AppState" where
  "executeAfter E current r s3 =
     (let taskIndex = currentTaskIndex current;
          task = tasks current ! taskIndex;
          s4 = addLog (stamp E) (assignedAgent task)
                 (''[SYSTEM] Agent Prompt:'' @ nl @ exec_prompt r) LogInfo None s3;
          s5 = addLog (stamp E) (assignedAgent task)
                 (''[SYSTEM] Agent Output:'' @ nl @ exec_text r) LogInfo None s4;
          s6 = addLog (stamp E) (assignedAgent task)
                 (''Task Complete. (Used '' @ showInt (exec_usage r) @ '' tokens)'')
                 LogResult (Some (exec_sources r)) s5;
          updatedTasksWithCurrentResult = mapAt taskIndex (completedWith r) (tasks current);
          remainingCount = int (length updatedTasksWithCurrentResult) - (int taskIndex + 1)
      in if remainingCount > 0 then
           (case checkRateLimit (env_config E) (now2 E) s6 s6 of
              (True, s7) \<Rightarrow>
                (case replanPhase E current taskIndex updatedTasksWithCurrentResult s7 of
                   (nextTasks, additionalUsage, s8) \<Rightarrow>
                     commitTask (exec_usage r) additionalUsage nextTasks s8)
            | (False, s7) \<Rightarrow>
                commitTask (exec_usage r) 0 updatedTasksWithCurrentResult s7)
         else commitTask (exec_usage r) 0 updatedTasksWithCurrentResult s6)"

text \<open>
  The synchronous stretch of a task-execution step from a committed state, up to the
  \<open>await\<close>: \<open>None\<close> when the step does not reach the call. Then what the step does once
  its call has returned, on the state that is pending by then.
\<close>

definition startStep :: "StepEnv \<Rightarrow> AppState \<Rightarrow> AppState option" where
  "startStep E current =
     (if status current = Working \<and> currentTaskIndex current < length (tasks current) then
        (case checkRateLimit (env_config E) (now1 E) current current of
           (False, s) \<Rightarrow> None
         | (True, s) \<Rightarrow> Some (executeBefore E current s))
      else None)"

definition finishStep :: "StepEnv \<Rightarrow> AppState \<Rightarrow> AppState \<Rightarrow> AppState" where
  "finishStep E current s =
     (case awaitedExecution E current of
        Inl err \<Rightarrow> stepCatch (stamp E) err s
      | Inr r \<Rightarrow> executeAfter E current r s)"

text \<open>
  Two steps in flight. The first step starts from the committed state; the render that
  follows commits what the step queued before its call. If that render re-arms the pacing
  effect and the call is still pending one second later, a second step starts from the
  rendered state. The first call returns, then the second. The result is \<open>None\<close> when
  this schedule does not arise.
\<close>

definition overlappedRun :: "StepEnv \<Rightarrow> StepEnv \<Rightarrow> AppState \<Rightarrow> AppState option" where
  "overlappedRun E1 E2 committed =
     (case startStep E1 committed of
        None \<Rightarrow> None
      | Some rendered \<Rightarrow>
          if pacingRearmed committed rendered then
            (case startStep E2 rendered of
               None \<Rightarrow> None
             | Some pending \<Rightarrow>
                 Some (finishStep E2 rendered (finishStep E1 committed pending)))
          else None)"

text \<open>The status, the task index, the token count and the number of tasks of a state.\<close>

definition summary :: "AppState \<Rightarrow> mission_status \<times> nat \<times> int \<times> nat" where
  "summary s = (status s, currentTaskIndex s, tokenUsage s, length (tasks s))"

section \<open>Example inputs\<close>

definition ex_keys :: KeyTables where
  "ex_keys = \<lparr>API_KEYS = (\<lambda>r. ''key-A''), keyPool = [''key-A'', ''key-B'']\<rparr>"

definition ex_ok :: Response where
  "ex_ok = \<lparr>text_resp = Some ''done'', candidates = None, totalTokenCount = Some 120\<rparr>"

definition ex_blocked :: Response where
  "ex_blocked =
     \<lparr>text_resp = None,
      candidates = Some [\<lparr>finishReason = Some ''SAFETY'', groundingChunks = None\<rparr>],
      totalTokenCount = None\<rparr>"

definition ex_bad_request :: JsError where
  "ex_bad_request =
     \<lparr>err_status = Some 400, err_code = None, err_message = Some ''Invalid argument'',
      err_string = ''ApiError: Invalid argument'', err_json = ''{}''\<rparr>"

definition ex_key_quota :: JsError where
  "ex_key_quota =
     \<lparr>err_status = Some 429, err_code = None, err_message = Some ''Resource exhausted'',
      err_string = ''ApiError: Resource exhausted'', err_json = ''{}''\<rparr>"

definition call_blocked_then_ok :: "string \<Rightarrow> api_outcome" where
  "call_blocked_then_ok k = (if k = ''key-A'' then Returns ex_blocked else Returns ex_ok)"

definition call_bad_request_then_ok :: "string \<Rightarrow> api_outcome" where
  "call_bad_request_then_ok k = (if k = ''key-A'' then Throws ex_bad_request else Returns ex_ok)"

definition call_quota_then_ok :: "string \<Rightarrow> api_outcome" where
  "call_quota_then_ok k = (if k = ''key-A'' then Throws ex_key_quota else Returns ex_ok)"

definition call_always_blocked :: "string \<Rightarrow> api_outcome" where
  "call_always_blocked k = Returns ex_blocked"

definition call_ok :: "string \<Rightarrow> api_outcome" where
  "call_ok k = Returns ex_ok"

definition ex_cfg :: RateLimitConfig where
  "ex_cfg = \<lparr>maxTokens = 1000, periodValue = 1, periodUnit = Minutes, autoResumeMinutes = 0\<rparr>"

definition ex_task0 :: Task where
  "ex_task0 =
     \<lparr>id_task = ''task-1000-0'', title = ''Find sources'', description = ''Search the web'',
      assignedAgent = RESEARCHER, status_task = TaskPending, result = None, usage = None\<rparr>"

definition ex_task1 :: Task where
  "ex_task1 =
     \<lparr>id_task = ''task-1000-1'', title = ''Write report'', description = ''Draft the text'',
      assignedAgent = WRITER, status_task = TaskPending, result = None, usage = None\<rparr>"

definition ex_working :: AppState where
  "ex_working =
     \<lparr>status = Working, tasks = [ex_task0, ex_task1], logs = [], currentTaskIndex = 0,
      tokenUsage = 0, windowStartTime = 1000, nextAllowedQueryTime = 0, finalOutput = None,
      agentPrompts = DEFAULT_AGENT_PROMPTS\<rparr>"

definition ex_cooldown :: AppState where
  "ex_cooldown =
     \<lparr>status = Cooldown, tasks = [ex_task0, ex_task1], logs = [], currentTaskIndex = 0,
      tokenUsage = 850, windowStartTime = 1000, nextAllowedQueryTime = 61000,
      finalOutput = None, agentPrompts = DEFAULT_AGENT_PROMPTS\<rparr>"

definition ex_syntax_error :: JsError where
  "ex_syntax_error =
     \<lparr>err_status = None, err_code = None, err_message = Some ''Unexpected end of JSON input'',
      err_string = ''SyntaxError: Unexpected end of JSON input'', err_json = ''{}''\<rparr>"

definition ex_env :: "(string \<Rightarrow> api_outcome) \<Rightarrow> (string \<Rightarrow> api_outcome) \<Rightarrow> StepEnv" where
  "ex_env c1 c2 =
     \<lparr>env_keys = ex_keys, env_config = ex_cfg, env_query = ''Summarise the topic'',
      now1 = 2000, now2 = 3000, idNow = (\<lambda>i. 3000), stamp = (\<lambda>n. (''log'', 2500)),
      call1 = c1, call2 = c2, parse = (\<lambda>txt. Inl ex_syntax_error)\<rparr>"

definition ex_partial_session :: SavedSession where
  "ex_partial_session =
     \<lparr>id_session = ''session-1'', timestamp_session = 5000, query_session = ''Summarise the topic'',
      config_session = ex_cfg,
      state_session =
        \<lparr>st_status = Some Paused, st_tasks = Some [ex_task0], st_logs = Some [],
         st_currentTaskIndex = Some 0, st_tokenUsage = Some 0, st_windowStartTime = Some 1000,
         st_nextAllowedQueryTime = Some 0, st_finalOutput = None,
         st_agentPrompts = Some [SUPERVISOR \<mapsto> ''Plan carefully.'']\<rparr>\<rparr>"

definition ex_old_session :: SavedSession where
  "ex_old_session =
     \<lparr>id_session = ''session-0'', timestamp_session = 4000, query_session = ''Summarise the topic'',
      config_session = ex_cfg,
      state_session =
        \<lparr>st_status = Some Paused, st_tasks = Some [ex_task0], st_logs = Some [],
         st_currentTaskIndex = Some 0, st_tokenUsage = Some 0, st_windowStartTime = Some 1000,
         st_nextAllowedQueryTime = Some 0, st_finalOutput = None,
         st_agentPrompts = None\<rparr>\<rparr>"

definition ex_near_limit :: AppState where
  "ex_near_limit = ex_working\<lparr>tokenUsage := 850\<rparr>"

definition ex_server_error :: JsError where
  "ex_server_error =
     \<lparr>err_status = Some 503, err_code = None, err_message = Some ''Service unavailable'',
      err_string = ''ApiError: Service unavailable'', err_json = ''{}''\<rparr>"

definition call_unavailable :: "string \<Rightarrow> api_outcome" where
  "call_unavailable k = Throws ex_server_error"




definition ex_all_done :: AppState where
  "ex_all_done =
     \<lparr>status = Working,
      tasks = [ex_task0\<lparr>status_task := TaskCompleted, result := Some ''three sources'', usage := Some 120\<rparr>,
               ex_task1\<lparr>status_task := TaskCompleted, result := Some ''the report'', usage := Some 200\<rparr>],
      logs = [], currentTaskIndex = 2, tokenUsage = 320, windowStartTime = 1000,
      nextAllowedQueryTime = 0, finalOutput = None, agentPrompts = DEFAULT_AGENT_PROMPTS\<rparr>"

definition ex_resumed :: AppState where
  "ex_resumed =
     \<lparr>status = Working, tasks = [ex_task0], logs = [], currentTaskIndex = 0,
      tokenUsage = 500, windowStartTime = 1000, nextAllowedQueryTime = 0, finalOutput = None,
      agentPrompts = DEFAULT_AGENT_PROMPTS\<rparr>"

definition ex_env_at :: "int \<Rightarrow> StepEnv" where
  "ex_env_at t = (ex_env call_ok call_ok)\<lparr>now1 := t, now2 := t\<rparr>"

section \<open>Fields that logging leaves alone\<close>

text \<open>
  Two states agree on everything but the task list and the log. Appending a log entry
  keeps a state in this relation with itself.
\<close>

definition sameCore :: "AppState \<Rightarrow> AppState \<Rightarrow> bool" where
  "sameCore a b \<longleftrightarrow>
     status a = status b \<and> currentTaskIndex a = currentTaskIndex b
     \<and> tokenUsage a = tokenUsage b \<and> windowStartTime a = windowStartTime b
     \<and> nextAllowedQueryTime a = nextAllowedQueryTime b \<and> finalOutput a = finalOutput b
     \<and> agentPrompts a = agentPrompts b"

section \<open>Properties of the rate limiter\<close>

lemma checkRateLimit_deny:
  assumes "now - windowStartTime ref \<le> periodMs cfg"
    and "thresholdReached (tokenUsage ref) (maxTokens cfg)"
  shows "checkRateLimit cfg now ref s =
           (False, s\<lparr>status := Cooldown,
                     nextAllowedQueryTime := now + (periodMs cfg - (now - windowStartTime ref))\<rparr>)"
  using assms by (simp add: checkRateLimit_def Let_def)

lemma thresholdReached_ratio:
  assumes "0 < maxT"
  shows "thresholdReached used maxT \<longleftrightarrow> 0.80 \<le> real_of_int used / real_of_int maxT"
  using assms by (simp add: thresholdReached_def field_simps)


lemma checkRateLimit_fst:
  "fst (checkRateLimit cfg now ref s) = fst (checkRateLimit cfg now ref s')"
  by (simp add: checkRateLimit_def Let_def)

text \<open>
  Claim C1. From a state with status working or planning and a configuration with a
  positive token budget, when the window has not elapsed and the tokens used are at least
  80 percent of the budget, the rate-limit check denies the call, and the step it guards
  ends right there: the status is cooldown and \<open>nextAllowedQueryTime\<close> is the clock reading
  of the check plus what is left of the period. Nothing else in the state changes, whatever
  the model would have answered.
\<close>

theorem rate_limit_denies_at_threshold:
  assumes "status s = Working \<or> status s = Planning"
    and "0 < maxTokens (env_config E)"
    and "now1 E - windowStartTime s \<le> periodMs (env_config E)"
    and "0.80 \<le> real_of_int (tokenUsage s) / real_of_int (maxTokens (env_config E))"
  shows "checkRateLimit (env_config E) (now1 E) s s =
           (False, s\<lparr>status := Cooldown,
                     nextAllowedQueryTime :=
                       now1 E + (periodMs (env_config E) - (now1 E - windowStartTime s))\<rparr>)
         \<and> processNextStep E s =
             s\<lparr>status := Cooldown,
               nextAllowedQueryTime :=
                 now1 E + (periodMs (env_config E) - (now1 E - windowStartTime s))\<rparr>"
proof -
  have thr: "thresholdReached (tokenUsage s) (maxTokens (env_config E))"
    using assms(2,4) by (simp add: thresholdReached_ratio)
  have chk: "checkRateLimit (env_config E) (now1 E) s s =
           (False, s\<lparr>status := Cooldown,
                     nextAllowedQueryTime :=
                       now1 E + (periodMs (env_config E) - (now1 E - windowStartTime s))\<rparr>)"
    by (rule checkRateLimit_deny [OF assms(3) thr])
  show ?thesis
    using assms(1) chk by (auto simp: processNextStep_def)
qed

text \<open>
  The scenario of the specification: a budget of 1000 tokens per minute, 850 used, the
  check made one second into the window.
\<close>

theorem rate_limit_denies_at_threshold_witness:
  "(status ex_near_limit = Working \<or> status ex_near_limit = Planning)
   \<and> 0 < maxTokens (env_config (ex_env call_ok call_ok))
   \<and> now1 (ex_env call_ok call_ok) - windowStartTime ex_near_limit
       \<le> periodMs (env_config (ex_env call_ok call_ok))
   \<and> 0.80 \<le> real_of_int (tokenUsage ex_near_limit)
             / real_of_int (maxTokens (env_config (ex_env call_ok call_ok)))
   \<and> processNextStep (ex_env call_ok call_ok) ex_near_limit =
       ex_near_limit\<lparr>status := Cooldown, nextAllowedQueryTime := 61000\<rparr>"
proof -
  have h1: "status ex_near_limit = Working \<or> status ex_near_limit = Planning"
    by (simp add: ex_near_limit_def ex_working_def)
  have h2: "0 < maxTokens (env_config (ex_env call_ok call_ok))"
    by (simp add: ex_env_def ex_cfg_def)
  have h3: "now1 (ex_env call_ok call_ok) - windowStartTime ex_near_limit
       \<le> periodMs (env_config (ex_env call_ok call_ok))"
    by (simp add: ex_env_def ex_cfg_def ex_near_limit_def ex_working_def)
  have h4: "0.80 \<le> real_of_int (tokenUsage ex_near_limit)
             / real_of_int (maxTokens (env_config (ex_env call_ok call_ok)))"
    by (simp add: ex_env_def ex_cfg_def ex_near_limit_def ex_working_def)
  have v: "now1 (ex_env call_ok call_ok) + (periodMs (env_config (ex_env call_ok call_ok))
             - (now1 (ex_env call_ok call_ok) - windowStartTime ex_near_limit)) = 61000"
    by (simp add: ex_env_def ex_cfg_def ex_near_limit_def ex_working_def)
  from rate_limit_denies_at_threshold [OF h1 h2 h3 h4] v h1 h2 h3 h4
  show ?thesis by simp
qed

section \<open>Properties of the cooldown timer\<close>

text \<open>The interval callback never writes \<open>tokenUsage\<close>.\<close>

lemma cooldownTick_tokenUsage: "tokenUsage (cooldownTick now now' ref s) = tokenUsage s"
  by (simp add: cooldownTick_def Let_def)

text \<open>
  Claim C7. The specification has the tick that ends a cooldown reset \<open>tokenUsage\<close> to 0
  and return to working. The callback sets the status and starts a new window, but leaves
  the counter as it is: from a cooldown with 850 of 1000 tokens used, whose window and wait
  have both run out at 61050, the tick gives status working with 850 tokens still counted
  in a window that starts at 61050, and the rate-limit check of the step one second later
  denies again.
\<close>

theorem cooldown_tick_keeps_token_usage:
  "status (cooldownTick 61050 61050 ex_cooldown ex_cooldown) = Working
   \<and> tokenUsage (cooldownTick 61050 61050 ex_cooldown ex_cooldown) = 850
   \<and> windowStartTime (cooldownTick 61050 61050 ex_cooldown ex_cooldown) = 61050
   \<and> fst (checkRateLimit ex_cfg 62050 (cooldownTick 61050 61050 ex_cooldown ex_cooldown)
            (cooldownTick 61050 61050 ex_cooldown ex_cooldown)) = False"
  by (simp add: cooldownTick_def ex_cooldown_def checkRateLimit_def ex_cfg_def
      thresholdReached_def Let_def)

section \<open>Properties of the failover loop\<close>

text \<open>
  The error thrown for either blocking reason is one that the \<open>catch\<close> block answers
  with the next key.
\<close>

lemma blocked_error_retriable:
  "retriable (newError (''Content generation blocked: '' @ ''SAFETY''))"
  "retriable (newError (''Content generation blocked: '' @ ''RECITATION''))"
  by (simp_all add: retriable_def newError_def isGlobalQuotaExhausted_def isQuota_def
      isServer_def errorStatus_def errorText_def errorMessage_def toLowerCase_def lowerChar_def)

text \<open>
  Claim C3. The specification has a safety or recitation block propagate at once. The
  error that the check throws has neither status nor code, so the \<open>catch\<close> block gives it
  status 500 and treats it as a transient server error: with a pool of two keys, a response
  blocked for SAFETY on the first key is followed by a call on the second key, whose
  response is returned.
\<close>

theorem content_block_tries_next_key:
  "generateContentWithFallback ex_keys call_blocked_then_ok SUPERVISOR
     = ([''key-A'', ''key-B''], Inr ex_ok)"
  by (simp add: generateContentWithFallback_def executionOrder_def primaryKey_def ex_keys_def
      call_blocked_then_ok_def tryKey_def blockedReason_def ex_blocked_def ex_ok_def newError_def
      isGlobalQuotaExhausted_def isQuota_def isServer_def errorStatus_def errorText_def
      errorMessage_def toLowerCase_def lowerChar_def)



text \<open>
  What the loop does on a non-empty list of keys: the keys tried are an initial stretch of
  the list, every key before the last one tried failed with an error that the \<open>catch\<close>
  block sends to the next key, and the outcome is that of the last key tried.
\<close>

lemma failoverLoop_char:
  assumes "ks \<noteq> []"
  shows "(case failoverLoop call le ks of (tried, res) \<Rightarrow>
           tried \<noteq> [] \<and> tried = take (length tried) ks \<and> res = tryKey call (last tried) \<and>
           (\<forall>k \<in> set (butlast tried). \<exists>e. tryKey call k = Inl e \<and> retriable e) \<and>
           (length tried < length ks \<longrightarrow> \<not> (\<exists>e. res = Inl e \<and> retriable e)))"
  using assms
proof (induction ks arbitrary: le)
  case Nil
  then show ?case by simp
next
  case (Cons k rest)
  show ?case
  proof (cases "tryKey call k")
    case (Inr response)
    then show ?thesis by simp
  next
    case (Inl e)
    show ?thesis
    proof (cases "retriable e")
      case False
      with Inl show ?thesis by (auto simp: retriable_def)
    next
      case True
      show ?thesis
      proof (cases rest)
        case Nil
        with Inl True show ?thesis by (auto simp: retriable_def)
      next
        case (Cons k' rest')
        then have ne: "rest \<noteq> []" by simp
        obtain tried res where fl: "failoverLoop call (Some e) rest = (tried, res)"
          by (cases "failoverLoop call (Some e) rest")
        from Cons.IH [OF ne, of "Some e"] fl
        have ih: "tried \<noteq> []" "tried = take (length tried) rest" "res = tryKey call (last tried)"
          "\<forall>k \<in> set (butlast tried). \<exists>e. tryKey call k = Inl e \<and> retriable e"
          "length tried < length rest \<longrightarrow> \<not> (\<exists>e. res = Inl e \<and> retriable e)"
          by auto
        have step: "failoverLoop call le (k # rest) = (k # tried, res)"
          using Inl True fl by (simp add: retriable_def)
        show ?thesis
          unfolding step using ih Inl True by auto
      qed
    qed
  qed
qed

text \<open>
  A pool built by the module has no key twice, so no key is tried twice in one call.
\<close>

lemma distinct_dedupe: "distinct (dedupe ks)"
  by (simp add: dedupe_def)

lemma buildKeyTables_distinct: "distinct (keyPool (buildKeyTables roleScoped shared))"
  by (simp add: buildKeyTables_def Let_def distinct_dedupe)

lemma executionOrder_distinct:
  assumes "distinct (keyPool K)"
  shows "distinct (executionOrder K preferredRole)"
  using assms by (simp add: executionOrder_def)

text \<open>
  Claim C6, as worded, has every other key of the pool tried until one succeeds. A failure
  that is neither a quota error nor a 5xx ends the loop as well: with a pool of two keys,
  status 400 on the first key is thrown at once, although the second key would have
  answered.
\<close>

theorem failover_stops_at_client_error:
  "executionOrder ex_keys SUPERVISOR = [''key-A'', ''key-B'']
   \<and> tryKey call_bad_request_then_ok ''key-B'' = Inr ex_ok
   \<and> generateContentWithFallback ex_keys call_bad_request_then_ok SUPERVISOR
       = ([''key-A''], Inl ex_bad_request)"
  by (simp add: generateContentWithFallback_def executionOrder_def primaryKey_def ex_keys_def
      call_bad_request_then_ok_def tryKey_def blockedReason_def ex_bad_request_def ex_ok_def
      isGlobalQuotaExhausted_def isQuota_def isServer_def errorStatus_def errorText_def
      errorMessage_def toLowerCase_def lowerChar_def)

text \<open>
  Claim C6, amended. For every logical call, the keys are tried in one fixed order: the
  preferred key of the role first, then the other keys of the pool in pool order. The loop
  stops at the first success or at the first failure that is not retriable (global quota
  exhaustion, or an error that is neither a quota error nor a 5xx); every key tried before
  the last one failed with a retriable error. What the function returns or throws is the
  outcome of the last key tried: the first success, or else the last error. The loop stops
  before the end of the order only on a success or a non-retriable failure.
\<close>

theorem failover_order:
  "(case generateContentWithFallback K call preferredRole of (tried, res) \<Rightarrow>
      hd (executionOrder K preferredRole) = primaryKey K preferredRole
      \<and> tl (executionOrder K preferredRole)
          = filter (\<lambda>k. k \<noteq> primaryKey K preferredRole) (keyPool K)
      \<and> tried \<noteq> []
      \<and> tried = take (length tried) (executionOrder K preferredRole)
      \<and> (\<forall>k \<in> set (butlast tried). \<exists>e. tryKey call k = Inl e \<and> retriable e)
      \<and> res = tryKey call (last tried)
      \<and> (length tried < length (executionOrder K preferredRole)
           \<longrightarrow> \<not> (\<exists>e. res = Inl e \<and> retriable e)))"
proof -
  have ne: "executionOrder K preferredRole \<noteq> []"
    by (simp add: executionOrder_def)
  have ord: "hd (executionOrder K preferredRole) = primaryKey K preferredRole
      \<and> tl (executionOrder K preferredRole)
          = filter (\<lambda>k. k \<noteq> primaryKey K preferredRole) (keyPool K)"
    by (simp add: executionOrder_def)
  show ?thesis
    using failoverLoop_char [OF ne, of call None] ord
    by (auto simp: generateContentWithFallback_def split: prod.splits)
qed

text \<open>A per-key quota error on the preferred key, and success on the next key of the pool.\<close>

lemma ex_quota_run:
  "generateContentWithFallback ex_keys call_quota_then_ok SUPERVISOR = ([''key-A'', ''key-B''], Inr ex_ok)"
  by (simp add: generateContentWithFallback_def executionOrder_def primaryKey_def ex_keys_def
      call_quota_then_ok_def tryKey_def blockedReason_def ex_key_quota_def ex_ok_def
      isGlobalQuotaExhausted_def isQuota_def isServer_def errorStatus_def errorText_def
      errorMessage_def toLowerCase_def lowerChar_def)

theorem failover_order_witness:
  "generateContentWithFallback ex_keys call_quota_then_ok SUPERVISOR = ([''key-A'', ''key-B''], Inr ex_ok)
   \<and> hd (executionOrder ex_keys SUPERVISOR) = primaryKey ex_keys SUPERVISOR
   \<and> [''key-A'', ''key-B''] = take 2 (executionOrder ex_keys SUPERVISOR)
   \<and> (\<exists>e. tryKey call_quota_then_ok ''key-A'' = Inl e \<and> retriable e)
   \<and> Inr ex_ok = tryKey call_quota_then_ok ''key-B''"
  using failover_order [where K = ex_keys and call = call_quota_then_ok and preferredRole = SUPERVISOR]
  by (simp add: ex_quota_run numeral_2_eq_2)

section \<open>Properties of loading a session\<close>

text \<open>
  Claim C9, as worded, has every role that the loaded data lacks filled in from the
  defaults. The merge falls back to the defaults only when the stored state has no
  \<open>agentPrompts\<close> at all: a stored object that has the Supervisor prompt and nothing
  else is taken as it is, and the Researcher has no prompt afterwards, on both load paths.
\<close>

theorem load_keeps_partial_prompts:
  "agentPrompts (handleLoadSession True 0 ex_partial_session (INITIAL_STATE 0)) RESEARCHER = None
   \<and> agentPrompts (loadAutosave True 0 (Some ex_partial_session) (INITIAL_STATE 0)) RESEARCHER = None
   \<and> DEFAULT_AGENT_PROMPTS RESEARCHER \<noteq> None"
  by (simp add: handleLoadSession_def loadAutosave_def mergeLoaded_def ex_partial_session_def
      orElse_def DEFAULT_AGENT_PROMPTS_def)

text \<open>
  Claim C9, amended. When a session is loaded, \<open>agentPrompts\<close> is the stored map if the
  stored state has one, and the default map otherwise. So the result has a prompt for every
  role exactly when the stored state has no \<open>agentPrompts\<close> or has one that is itself
  complete; a role missing from a stored map stays missing. The auto-save path resumes an
  interrupted mission with the same map.
\<close>

theorem loaded_prompts_total:
  assumes "(status s \<noteq> Working \<and> status s \<noteq> Planning) \<or> confirmed"
  shows "agentPrompts (handleLoadSession confirmed t0 session s)
           = (case st_agentPrompts (state_session session) of
                None \<Rightarrow> DEFAULT_AGENT_PROMPTS | Some p \<Rightarrow> p)
         \<and> ((\<forall>r. agentPrompts (handleLoadSession confirmed t0 session s) r \<noteq> None)
              \<longleftrightarrow> (st_agentPrompts (state_session session) = None
                   \<or> (\<exists>p. st_agentPrompts (state_session session) = Some p \<and> (\<forall>r. p r \<noteq> None))))
         \<and> (st_status (state_session session) \<noteq> Some Idle
              \<and> st_status (state_session session) \<noteq> Some Completed
            \<longrightarrow> agentPrompts (loadAutosave True t0 (Some session) s')
                  = agentPrompts (handleLoadSession confirmed t0 session s))"
  using assms
  by (auto simp: handleLoadSession_def loadAutosave_def mergeLoaded_def orElse_def
      INITIAL_STATE_def DEFAULT_AGENT_PROMPTS_def split: option.splits)

text \<open>A session stored without \<open>agentPrompts\<close>, loaded while idle.\<close>

theorem loaded_prompts_total_witness:
  "((status (INITIAL_STATE 0) \<noteq> Working \<and> status (INITIAL_STATE 0) \<noteq> Planning) \<or> False)
   \<and> st_agentPrompts (state_session ex_old_session) = None
   \<and> (\<forall>r. agentPrompts (handleLoadSession False 0 ex_old_session (INITIAL_STATE 0)) r \<noteq> None)"
proof -
  have h: "(status (INITIAL_STATE 0) \<noteq> Working \<and> status (INITIAL_STATE 0) \<noteq> Planning) \<or> False"
    by (simp add: INITIAL_STATE_def)
  have n: "st_agentPrompts (state_session ex_old_session) = None"
    by (simp add: ex_old_session_def)
  from loaded_prompts_total [OF h, of 0 ex_old_session] n h
  show ?thesis by (simp add: DEFAULT_AGENT_PROMPTS_def)
qed

section \<open>Properties of one step of the state machine\<close>

subsection \<open>What the parts of a step leave unchanged\<close>

lemma addLog_frame:
  "status (addLog st a m ty md s) = status s"
  "tasks (addLog st a m ty md s) = tasks s"
  "currentTaskIndex (addLog st a m ty md s) = currentTaskIndex s"
  "tokenUsage (addLog st a m ty md s) = tokenUsage s"
  "windowStartTime (addLog st a m ty md s) = windowStartTime s"
  "nextAllowedQueryTime (addLog st a m ty md s) = nextAllowedQueryTime s"
  "finalOutput (addLog st a m ty md s) = finalOutput s"
  "agentPrompts (addLog st a m ty md s) = agentPrompts s"
  by (simp_all add: addLog_def)

lemma addLog_logs:
  "\<exists>entry. logs (addLog st a m ty md s) = logs s @ [entry] \<and> type_log entry = ty
           \<and> agent entry = a \<and> message entry = m"
  by (simp add: addLog_def)

lemma sameCore_addLog: "sameCore (addLog st a m ty md s) s"
  by (simp add: sameCore_def addLog_frame)

lemma checkRateLimit_frame:
  assumes "checkRateLimit cfg now ref s = (ok, s')"
  shows "tasks s' = tasks s" "logs s' = logs s" "currentTaskIndex s' = currentTaskIndex s"
    "finalOutput s' = finalOutput s" "agentPrompts s' = agentPrompts s"
  using assms by (auto simp: checkRateLimit_def Let_def split: if_splits)

lemma checkRateLimit_permit_status:
  assumes "checkRateLimit cfg now ref s = (True, s')" and "status s \<noteq> Cooldown"
  shows "status s' = status s"
  using assms by (auto simp: checkRateLimit_def Let_def split: if_splits)

lemma checkRateLimit_tokenUsage:
  assumes "checkRateLimit cfg now ref s = (ok, s')"
  shows "tokenUsage s' = (if now - windowStartTime ref > periodMs cfg then 0 else tokenUsage s)"
  using assms by (auto simp: checkRateLimit_def Let_def split: if_splits)

lemma checkRateLimit_ref:
  assumes "tokenUsage ref = tokenUsage ref'" "windowStartTime ref = windowStartTime ref'"
  shows "fst (checkRateLimit cfg now ref s) = fst (checkRateLimit cfg now ref' s')"
  using assms by (simp add: checkRateLimit_def Let_def)

lemma checkRateLimit_tokenUsage_ref:
  assumes "tokenUsage ref = tokenUsage s" "windowStartTime ref = windowStartTime s"
    "tokenUsage ref' = tokenUsage s" "windowStartTime ref' = windowStartTime s"
    "tokenUsage s' = tokenUsage s"
  shows "tokenUsage (snd (checkRateLimit cfg now ref s')) = tokenUsage (snd (checkRateLimit cfg now ref' s))"
  using assms by (simp add: checkRateLimit_def Let_def)

text \<open>
  With a clock that does not run backwards, the second check of the synthesis branch
  permits whenever the first one did: both read the same snapshot.
\<close>

lemma second_check_permits:
  assumes "fst (checkRateLimit cfg t1 ref s)" and "t1 \<le> t2"
  shows "fst (checkRateLimit cfg t2 ref s')"
  using assms by (auto simp: checkRateLimit_def Let_def split: if_splits)

lemma stepCatch_frame:
  "status (stepCatch st err s) = Paused"
  "tasks (stepCatch st err s) = tasks s"
  "currentTaskIndex (stepCatch st err s) = currentTaskIndex s"
  "tokenUsage (stepCatch st err s) = tokenUsage s"
  "windowStartTime (stepCatch st err s) = windowStartTime s"
  "nextAllowedQueryTime (stepCatch st err s) = nextAllowedQueryTime s"
  "finalOutput (stepCatch st err s) = finalOutput s"
  "agentPrompts (stepCatch st err s) = agentPrompts s"
  by (simp_all add: stepCatch_def Let_def addLog_def)

lemma stepCatch_logs:
  "\<exists>entry. logs (stepCatch st err s) = logs s @ [entry] \<and> type_log entry = LogError"
  by (simp add: stepCatch_def Let_def addLog_def)

lemma mapAt_update: "i < length xs \<Longrightarrow> mapAt i f xs = xs[i := f (xs ! i)]"
  by (simp add: mapAt_def)

lemma length_mapAt [simp]: "length (mapAt i f xs) = length xs"
  by (simp add: mapAt_def)

lemma commitTask_fields:
  "tasks (commitTask u au nt s) = nt"
  "currentTaskIndex (commitTask u au nt s) = currentTaskIndex s + 1"
  "tokenUsage (commitTask u au nt s) = tokenUsage s + u + au"
  "status (commitTask u au nt s) = status s"
  by (simp_all add: commitTask_def)

subsection \<open>The phases, unfolded\<close>

lemma planningPhase_failure:
  assumes "createSupervisorPlan (env_keys E) (call1 E) (parse E) (idNow E) (env_query E)
             (agentPrompts current) = Inl err"
  shows "planningPhase E current s =
           stepCatch (stamp E) err
             (addLog (stamp E) SUPERVISOR
                ''Thinking... Analyzing request to build granular plan.'' LogPlan None s)"
  using assms by (simp add: planningPhase_def Let_def)

lemma executePhase_failure:
  assumes "executeAgentTask (env_keys E) (call1 E)
             (assignedAgent (tasks current ! currentTaskIndex current))
             (tasks current ! currentTaskIndex current)
             (executionContext (take (currentTaskIndex current) (tasks current)))
             (agentPrompts current) = Inl err"
  shows "\<exists>msg. executePhase E current s =
           stepCatch (stamp E) err
             (addLog (stamp E) SUPERVISOR msg LogAction None
                (s\<lparr>tasks := mapAt (currentTaskIndex current)
                               (\<lambda>t. t\<lparr>status_task := TaskInProgress\<rparr>) (tasks s)\<rparr>))"
  unfolding executePhase_def Let_def using assms by (intro exI) simp

lemma replanPhase_unfold:
  "\<exists>s4. sameCore s4 s \<and> tasks s4 = tasks s \<and>
     replanPhase E current i updated s =
       (take (i + 1) updated
          @ pendingTasks (idNow E)
              (replan_tasks (updateSupervisorPlan (env_keys E) (call2 E) (parse E) (env_query E)
                 (take (i + 1) updated) (drop (i + 1) updated) (agentPrompts current))),
        replan_usage (updateSupervisorPlan (env_keys E) (call2 E) (parse E) (env_query E)
                 (take (i + 1) updated) (drop (i + 1) updated) (agentPrompts current)),
        s4)"
  by (simp add: replanPhase_def Let_def sameCore_def addLog_frame)

lemma executePhase_success:
  assumes "executeAgentTask (env_keys E) (call1 E)
             (assignedAgent (tasks current ! currentTaskIndex current))
             (tasks current ! currentTaskIndex current)
             (executionContext (take (currentTaskIndex current) (tasks current)))
             (agentPrompts current) = Inr r"
  shows "\<exists>s6. sameCore s6 s \<and>
     executePhase E current s =
       (if currentTaskIndex current + 1 < length (tasks current) then
          (case checkRateLimit (env_config E) (now2 E) s6 s6 of
             (True, s7) \<Rightarrow>
               (case replanPhase E current (currentTaskIndex current)
                       (mapAt (currentTaskIndex current) (completedWith r) (tasks current)) s7 of
                  (nextTasks, additionalUsage, s8) \<Rightarrow>
                    commitTask (exec_usage r) additionalUsage nextTasks s8)
           | (False, s7) \<Rightarrow>
               commitTask (exec_usage r) 0
                 (mapAt (currentTaskIndex current) (completedWith r) (tasks current)) s7)
        else commitTask (exec_usage r) 0
               (mapAt (currentTaskIndex current) (completedWith r) (tasks current)) s6)"
proof -
  let ?i = "currentTaskIndex current"
  let ?task = "tasks current ! ?i"
  let ?s2 = "s\<lparr>tasks := mapAt ?i (\<lambda>t. t\<lparr>status_task := TaskInProgress\<rparr>) (tasks s)\<rparr>"
  let ?s3 = "addLog (stamp E) SUPERVISOR
                 (''Starting Task '' @ showNat (?i + 1) @ ''/''
                    @ showNat (length (tasks current)) @ '': '' @ title ?task
                    @ '' ('' @ role_string (assignedAgent ?task) @ '')'')
                 LogAction None ?s2"
  let ?s4 = "addLog (stamp E) (assignedAgent ?task)
                         (''[SYSTEM] Agent Prompt:'' @ nl @ exec_prompt r) LogInfo None ?s3"
  let ?s5 = "addLog (stamp E) (assignedAgent ?task)
                         (''[SYSTEM] Agent Output:'' @ nl @ exec_text r) LogInfo None ?s4"
  let ?s6 = "addLog (stamp E) (assignedAgent ?task)
                         (''Task Complete. (Used '' @ showInt (exec_usage r) @ '' tokens)'')
                         LogResult (Some (exec_sources r)) ?s5"
  have core: "sameCore ?s6 s"
    by (simp add: sameCore_def addLog_frame)
  have cnt: "(0 < int (length (tasks current)) - (int ?i + 1)) = (?i + 1 < length (tasks current))"
    by auto
  have "executePhase E current s =
       (if ?i + 1 < length (tasks current) then
          (case checkRateLimit (env_config E) (now2 E) ?s6 ?s6 of
             (True, s7) \<Rightarrow>
               (case replanPhase E current ?i (mapAt ?i (completedWith r) (tasks current)) s7 of
                  (nextTasks, additionalUsage, s8) \<Rightarrow>
                    commitTask (exec_usage r) additionalUsage nextTasks s8)
           | (False, s7) \<Rightarrow>
               commitTask (exec_usage r) 0 (mapAt ?i (completedWith r) (tasks current)) s7)
        else commitTask (exec_usage r) 0 (mapAt ?i (completedWith r) (tasks current)) ?s6)"
    unfolding executePhase_def Let_def using assms
    by (simp only: sum.case length_mapAt cnt)
  with core show ?thesis by blast
qed

lemma executePhase_tasks:
  assumes ex: "executeAgentTask (env_keys E) (call1 E)
             (assignedAgent (tasks current ! currentTaskIndex current))
             (tasks current ! currentTaskIndex current)
             (executionContext (take (currentTaskIndex current) (tasks current)))
             (agentPrompts current) = Inr r"
    and lt: "currentTaskIndex current < length (tasks current)"
  shows "\<exists>suffix. tasks (executePhase E current s) =
           take (currentTaskIndex current) (tasks current)
             @ [completedWith r (tasks current ! currentTaskIndex current)] @ suffix"
proof -
  let ?i = "currentTaskIndex current"
  let ?upd = "mapAt ?i (completedWith r) (tasks current)"
  have upd: "?upd = take ?i (tasks current) @ [completedWith r (tasks current ! ?i)]
                      @ drop (Suc ?i) (tasks current)"
    using lt by (simp add: mapAt_def upd_conv_take_nth_drop)
  have tk: "take (?i + 1) ?upd = take ?i (tasks current) @ [completedWith r (tasks current ! ?i)]"
    using lt by (simp add: upd)
  obtain s6 where s6: "executePhase E current s =
       (if ?i + 1 < length (tasks current) then
          (case checkRateLimit (env_config E) (now2 E) s6 s6 of
             (True, s7) \<Rightarrow>
               (case replanPhase E current ?i ?upd s7 of
                  (nextTasks, additionalUsage, s8) \<Rightarrow>
                    commitTask (exec_usage r) additionalUsage nextTasks s8)
           | (False, s7) \<Rightarrow> commitTask (exec_usage r) 0 ?upd s7)
        else commitTask (exec_usage r) 0 ?upd s6)"
    using executePhase_success [OF ex, of s] by blast
  obtain ok s7 where c2: "checkRateLimit (env_config E) (now2 E) s6 s6 = (ok, s7)"
    by (cases "checkRateLimit (env_config E) (now2 E) s6 s6")
  obtain s8 where rp: "replanPhase E current ?i ?upd s7 =
       (take (?i + 1) ?upd
          @ pendingTasks (idNow E)
              (replan_tasks (updateSupervisorPlan (env_keys E) (call2 E) (parse E) (env_query E)
                 (take (?i + 1) ?upd) (drop (?i + 1) ?upd) (agentPrompts current))),
        replan_usage (updateSupervisorPlan (env_keys E) (call2 E) (parse E) (env_query E)
                 (take (?i + 1) ?upd) (drop (?i + 1) ?upd) (agentPrompts current)),
        s8)"
    using replanPhase_unfold [of s7 E current ?i ?upd] by blast
  show ?thesis
  proof (cases "?i + 1 < length (tasks current) \<and> ok")
    case True
    then have "tasks (executePhase E current s) = take (?i + 1) ?upd
          @ pendingTasks (idNow E)
              (replan_tasks (updateSupervisorPlan (env_keys E) (call2 E) (parse E) (env_query E)
                 (take (?i + 1) ?upd) (drop (?i + 1) ?upd) (agentPrompts current)))"
      by (simp add: s6 c2 rp commitTask_fields)
    then show ?thesis using tk by simp
  next
    case False
    then have "tasks (executePhase E current s) = ?upd"
      by (auto simp: s6 c2 commitTask_fields)
    then show ?thesis using upd by simp
  qed
qed

lemma synthesisPhase_frame:
  "currentTaskIndex (synthesisPhase E current s) = currentTaskIndex s
   \<and> tasks (synthesisPhase E current s) = tasks s"
  by (simp add: synthesisPhase_def Let_def addLog_frame checkRateLimit_def split: prod.splits bool.splits)

lemma executePhase_index:
  assumes lt: "currentTaskIndex current < length (tasks current)"
    and same: "currentTaskIndex s = currentTaskIndex current" "tasks s = tasks current"
  shows "currentTaskIndex current \<le> currentTaskIndex (executePhase E current s)
     \<and> currentTaskIndex (executePhase E current s) \<le> currentTaskIndex current + 1
     \<and> currentTaskIndex (executePhase E current s) \<le> length (tasks (executePhase E current s))"
proof (cases "executeAgentTask (env_keys E) (call1 E)
             (assignedAgent (tasks current ! currentTaskIndex current))
             (tasks current ! currentTaskIndex current)
             (executionContext (take (currentTaskIndex current) (tasks current)))
             (agentPrompts current)")
  case (Inl err)
  then obtain msg where ph: "executePhase E current s =
           stepCatch (stamp E) err
             (addLog (stamp E) SUPERVISOR msg LogAction None
                (s\<lparr>tasks := mapAt (currentTaskIndex current)
                               (\<lambda>t. t\<lparr>status_task := TaskInProgress\<rparr>) (tasks s)\<rparr>))"
    using executePhase_failure [of E current err s] by blast
  show ?thesis
    using lt same by (simp add: ph stepCatch_frame addLog_frame)
next
  case (Inr r)
  let ?i = "currentTaskIndex current"
  let ?upd = "mapAt ?i (completedWith r) (tasks current)"
  obtain suffix where ts: "tasks (executePhase E current s) =
           take ?i (tasks current) @ [completedWith r (tasks current ! ?i)] @ suffix"
    using executePhase_tasks [OF Inr lt, of s] by blast
  obtain s6 where core6: "sameCore s6 s" and s6: "executePhase E current s =
       (if ?i + 1 < length (tasks current) then
          (case checkRateLimit (env_config E) (now2 E) s6 s6 of
             (True, s7) \<Rightarrow>
               (case replanPhase E current ?i ?upd s7 of
                  (nextTasks, additionalUsage, s8) \<Rightarrow>
                    commitTask (exec_usage r) additionalUsage nextTasks s8)
           | (False, s7) \<Rightarrow> commitTask (exec_usage r) 0 ?upd s7)
        else commitTask (exec_usage r) 0 ?upd s6)"
    using executePhase_success [OF Inr, of s] by blast
  obtain ok s7 where c2: "checkRateLimit (env_config E) (now2 E) s6 s6 = (ok, s7)"
    by (cases "checkRateLimit (env_config E) (now2 E) s6 s6")
  have ix7: "currentTaskIndex s7 = ?i"
    using checkRateLimit_frame(3) [OF c2] core6 same by (simp add: sameCore_def)
  obtain nt au s8 where rp: "replanPhase E current ?i ?upd s7 = (nt, au, s8)" and core8: "sameCore s8 s7"
    using replanPhase_unfold [of s7 E current ?i ?upd] by blast
  have ix: "currentTaskIndex (executePhase E current s) = ?i + 1"
    using core6 core8 ix7 same
    by (cases ok) (auto simp: s6 c2 rp commitTask_fields sameCore_def)
  have len: "length (take ?i (tasks current)) = ?i"
    using lt by simp
  have "?i + 1 \<le> length (tasks (executePhase E current s))"
    using len by (simp add: ts)
  with ix show ?thesis by simp
qed

subsection \<open>The example inputs, field by field\<close>

lemma ex_working_fields:
  "status ex_working = Working" "tasks ex_working = [ex_task0, ex_task1]"
  "logs ex_working = []" "currentTaskIndex ex_working = 0" "tokenUsage ex_working = 0"
  "windowStartTime ex_working = 1000" "finalOutput ex_working = None"
  "agentPrompts ex_working = DEFAULT_AGENT_PROMPTS"
  by (simp_all add: ex_working_def)

lemma ex_all_done_fields:
  "status ex_all_done = Working" "length (tasks ex_all_done) = 2"
  "currentTaskIndex ex_all_done = 2" "tokenUsage ex_all_done = 320"
  "windowStartTime ex_all_done = 1000"
  by (simp_all add: ex_all_done_def)

lemma ex_env_fields:
  "env_keys (ex_env c1 c2) = ex_keys" "env_config (ex_env c1 c2) = ex_cfg"
  "env_query (ex_env c1 c2) = ''Summarise the topic''"
  "now1 (ex_env c1 c2) = 2000" "now2 (ex_env c1 c2) = 3000"
  "idNow (ex_env c1 c2) = (\<lambda>i. 3000)" "call1 (ex_env c1 c2) = c1" "call2 (ex_env c1 c2) = c2"
  "parse (ex_env c1 c2) = (\<lambda>txt. Inl ex_syntax_error)"
  by (simp_all add: ex_env_def)


lemmas gateway_defs = generateContentWithFallback_def executionOrder_def primaryKey_def
  tryKey_def blockedReason_def newError_def isGlobalQuotaExhausted_def isQuota_def isServer_def
  errorStatus_def errorText_def errorMessage_def toLowerCase_def lowerChar_def

lemma ex_exec_blocked:
  "executeAgentTask ex_keys call_always_blocked ag t ctx p
     = Inl (newError ''Content generation blocked: SAFETY'')"
  by (simp add: executeAgentTask_def gateway_defs ex_keys_def call_always_blocked_def
      ex_blocked_def)

lemma ex_exec_ok:
  "executeAgentTask ex_keys call_ok ag t ctx p
     = Inr \<lparr>exec_text = ''done'', exec_sources = [], exec_usage = 120,
            exec_prompt = agentPrompt ag t ctx p\<rparr>"
  by (simp add: executeAgentTask_def gateway_defs ex_keys_def call_ok_def ex_ok_def
      textOr_def sourcesOf_def usageOf_def)

lemma ex_gateway_ok: "snd (generateContentWithFallback ex_keys call_ok SUPERVISOR) = Inr ex_ok"
  by (simp add: gateway_defs ex_keys_def call_ok_def ex_ok_def)

lemma ex_gateway_unavailable:
  "snd (generateContentWithFallback ex_keys call_unavailable SUPERVISOR) = Inl ex_server_error"
  by (simp add: gateway_defs ex_keys_def call_unavailable_def ex_server_error_def)

lemma ex_check_working:
  "checkRateLimit ex_cfg 2000 ex_working ex_working = (True, ex_working)"
  "checkRateLimit ex_cfg 3000 ex_working ex_working = (True, ex_working)"
  by (simp_all add: checkRateLimit_def thresholdReached_def ex_cfg_def ex_working_fields Let_def)

lemma ex_check_all_done:
  "fst (checkRateLimit ex_cfg 2000 ex_all_done ex_all_done)"
  "fst (checkRateLimit ex_cfg 3000 ex_all_done ex_all_done)"
  by (simp_all add: checkRateLimit_def thresholdReached_def ex_cfg_def ex_all_done_fields Let_def)

subsection \<open>A step whose model call fails\<close>

text \<open>
  Claim C2, as worded, has a failed step apply nothing but the pause and one error entry,
  and leave no task in progress. The task is marked in progress and the start of the task is
  logged before the model is called, and the \<open>catch\<close> block undoes neither: when the
  execution of the first of two tasks is blocked for SAFETY on every key, the mission is
  paused with that task in progress and with an action entry before the error entry.
\<close>

theorem failed_task_left_in_progress:
  "status (processNextStep (ex_env call_always_blocked call_ok) ex_working) = Paused
   \<and> map status_task (tasks (processNextStep (ex_env call_always_blocked call_ok) ex_working))
       = [TaskInProgress, TaskPending]
   \<and> map type_log (logs (processNextStep (ex_env call_always_blocked call_ok) ex_working))
       = [LogAction, LogError]"
proof -
  let ?E = "ex_env call_always_blocked call_ok"
  let ?err = "newError ''Content generation blocked: SAFETY''"
  have step: "processNextStep ?E ex_working = executePhase ?E ex_working ex_working"
    by (simp add: processNextStep_def ex_env_fields ex_working_fields ex_check_working)
  obtain msg where ph: "executePhase ?E ex_working ex_working =
           stepCatch (stamp ?E) ?err
             (addLog (stamp ?E) SUPERVISOR msg LogAction None
                (ex_working\<lparr>tasks := mapAt (currentTaskIndex ex_working)
                               (\<lambda>t. t\<lparr>status_task := TaskInProgress\<rparr>) (tasks ex_working)\<rparr>))"
    using executePhase_failure [of ?E ex_working ?err ex_working]
    by (auto simp: ex_env_fields ex_exec_blocked)
  let ?s2 = "ex_working\<lparr>tasks := mapAt (currentTaskIndex ex_working)
                               (\<lambda>t. t\<lparr>status_task := TaskInProgress\<rparr>) (tasks ex_working)\<rparr>"
  obtain e1 where l1: "logs (addLog (stamp ?E) SUPERVISOR msg LogAction None ?s2) = logs ?s2 @ [e1]"
      "type_log e1 = LogAction"
    using addLog_logs [of "stamp ?E" SUPERVISOR msg LogAction None ?s2] by auto
  obtain e2 where l2: "logs (processNextStep ?E ex_working) = (logs ?s2 @ [e1]) @ [e2]"
      "type_log e2 = LogError"
    unfolding step ph using stepCatch_logs l1(1) by metis
  have a: "status (processNextStep ?E ex_working) = Paused"
    by (simp add: step ph stepCatch_frame)
  have b: "map status_task (tasks (processNextStep ?E ex_working)) = [TaskInProgress, TaskPending]"
    by (simp add: step ph stepCatch_frame addLog_frame mapAt_def ex_working_fields
        ex_task0_def ex_task1_def)
  have c: "map type_log (logs (processNextStep ?E ex_working)) = [LogAction, LogError]"
    using l1(2) l2 by (simp add: ex_working_fields)
  from a b c show ?thesis by blast
qed

text \<open>
  Claim C2, amended. When the rate limiter permits the step and the planning call or the
  task-execution call fails, the step ends with the status paused and two entries added to
  the log: the progress entry written before the call (a plan entry, or an action entry),
  then exactly one error entry. The task index and the final output are unchanged and no
  tokens are charged. After a planning failure the task list is unchanged; after a
  task-execution failure it is unchanged except that the current task keeps the status
  in-progress it was given before the call.
\<close>

theorem failed_call_pauses_step:
  assumes permit: "fst (checkRateLimit (env_config E) (now1 E) s s)"
    and fail:
      "(status s = Planning
          \<and> createSupervisorPlan (env_keys E) (call1 E) (parse E) (idNow E) (env_query E)
               (agentPrompts s) = Inl err)
       \<or> (status s = Working \<and> currentTaskIndex s < length (tasks s)
          \<and> executeAgentTask (env_keys E) (call1 E)
               (assignedAgent (tasks s ! currentTaskIndex s)) (tasks s ! currentTaskIndex s)
               (executionContext (take (currentTaskIndex s) (tasks s))) (agentPrompts s)
             = Inl err)"
  shows "status (processNextStep E s) = Paused
     \<and> length (logs (processNextStep E s)) = length (logs s) + 2
     \<and> take (length (logs s)) (logs (processNextStep E s)) = logs s
     \<and> type_log (logs (processNextStep E s) ! length (logs s))
         = (if status s = Planning then LogPlan else LogAction)
     \<and> type_log (logs (processNextStep E s) ! (length (logs s) + 1)) = LogError
     \<and> currentTaskIndex (processNextStep E s) = currentTaskIndex s
     \<and> finalOutput (processNextStep E s) = finalOutput s
     \<and> tokenUsage (processNextStep E s)
         = tokenUsage (snd (checkRateLimit (env_config E) (now1 E) s s))
     \<and> tasks (processNextStep E s)
         = (if status s = Planning then tasks s
            else (tasks s)[currentTaskIndex s :=
                   (tasks s ! currentTaskIndex s)\<lparr>status_task := TaskInProgress\<rparr>])"
proof -
  obtain s1 where chk: "checkRateLimit (env_config E) (now1 E) s s = (True, s1)"
    using permit by (cases "checkRateLimit (env_config E) (now1 E) s s") auto
  note fr = checkRateLimit_frame [OF chk]
  from fail show ?thesis
  proof
    assume a: "status s = Planning
          \<and> createSupervisorPlan (env_keys E) (call1 E) (parse E) (idNow E) (env_query E)
               (agentPrompts s) = Inl err"
    then have step: "processNextStep E s =
           stepCatch (stamp E) err
             (addLog (stamp E) SUPERVISOR
                ''Thinking... Analyzing request to build granular plan.'' LogPlan None s1)"
      using chk planningPhase_failure [of E s err s1] by (simp add: processNextStep_def)
    obtain e1 where l1: "logs (addLog (stamp E) SUPERVISOR
                ''Thinking... Analyzing request to build granular plan.'' LogPlan None s1)
                = logs s1 @ [e1]" "type_log e1 = LogPlan"
      using addLog_logs by blast
    obtain e2 where l2: "logs (processNextStep E s) = (logs s1 @ [e1]) @ [e2]" "type_log e2 = LogError"
      unfolding step using stepCatch_logs l1(1) by metis
    show ?thesis
      using a l1 l2 fr chk by (simp add: step stepCatch_frame addLog_frame nth_append)
  next
    assume a: "status s = Working \<and> currentTaskIndex s < length (tasks s)
          \<and> executeAgentTask (env_keys E) (call1 E)
               (assignedAgent (tasks s ! currentTaskIndex s)) (tasks s ! currentTaskIndex s)
               (executionContext (take (currentTaskIndex s) (tasks s))) (agentPrompts s)
             = Inl err"
    then obtain msg where ph: "executePhase E s s1 =
           stepCatch (stamp E) err
             (addLog (stamp E) SUPERVISOR msg LogAction None
                (s1\<lparr>tasks := mapAt (currentTaskIndex s)
                               (\<lambda>t. t\<lparr>status_task := TaskInProgress\<rparr>) (tasks s1)\<rparr>))"
      using executePhase_failure [of E s err s1] by blast
    have step: "processNextStep E s = executePhase E s s1"
      using a chk by (simp add: processNextStep_def)
    obtain e1 where l1: "logs (addLog (stamp E) SUPERVISOR msg LogAction None
                (s1\<lparr>tasks := mapAt (currentTaskIndex s)
                               (\<lambda>t. t\<lparr>status_task := TaskInProgress\<rparr>) (tasks s1)\<rparr>))
                = logs s1 @ [e1]" "type_log e1 = LogAction"
      using addLog_logs [of "stamp E" SUPERVISOR msg LogAction None
                "s1\<lparr>tasks := mapAt (currentTaskIndex s)
                               (\<lambda>t. t\<lparr>status_task := TaskInProgress\<rparr>) (tasks s1)\<rparr>"]
      by auto
    obtain e2 where l2: "logs (processNextStep E s) = (logs s1 @ [e1]) @ [e2]" "type_log e2 = LogError"
      unfolding step ph using stepCatch_logs l1(1) by metis
    show ?thesis
      using a l1 l2 fr chk
      by (simp add: step ph stepCatch_frame addLog_frame nth_append mapAt_update)
  qed
qed

text \<open>Both keys answer the execution of the first task with a response blocked for SAFETY.\<close>

theorem failed_call_pauses_step_witness:
  "fst (checkRateLimit (env_config (ex_env call_always_blocked call_ok))
          (now1 (ex_env call_always_blocked call_ok)) ex_working ex_working)
   \<and> status ex_working = Working
   \<and> currentTaskIndex ex_working < length (tasks ex_working)
   \<and> executeAgentTask (env_keys (ex_env call_always_blocked call_ok))
        (call1 (ex_env call_always_blocked call_ok))
        (assignedAgent (tasks ex_working ! currentTaskIndex ex_working))
        (tasks ex_working ! currentTaskIndex ex_working)
        (executionContext (take (currentTaskIndex ex_working) (tasks ex_working)))
        (agentPrompts ex_working)
      = Inl (newError ''Content generation blocked: SAFETY'')
   \<and> status (processNextStep (ex_env call_always_blocked call_ok) ex_working) = Paused
   \<and> currentTaskIndex (processNextStep (ex_env call_always_blocked call_ok) ex_working) = 0
   \<and> tokenUsage (processNextStep (ex_env call_always_blocked call_ok) ex_working) = 0
   \<and> length (logs (processNextStep (ex_env call_always_blocked call_ok) ex_working)) = 2
   \<and> type_log (logs (processNextStep (ex_env call_always_blocked call_ok) ex_working) ! 1)
       = LogError
   \<and> tasks (processNextStep (ex_env call_always_blocked call_ok) ex_working)
       = [ex_task0\<lparr>status_task := TaskInProgress\<rparr>, ex_task1]"
proof -
  let ?E = "ex_env call_always_blocked call_ok"
  let ?err = "newError ''Content generation blocked: SAFETY''"
  have h1: "fst (checkRateLimit (env_config ?E) (now1 ?E) ex_working ex_working)"
    by (simp add: ex_env_fields ex_check_working)
  have h2: "(status ex_working = Planning
          \<and> createSupervisorPlan (env_keys ?E) (call1 ?E) (parse ?E) (idNow ?E) (env_query ?E)
               (agentPrompts ex_working) = Inl ?err)
       \<or> (status ex_working = Working \<and> currentTaskIndex ex_working < length (tasks ex_working)
          \<and> executeAgentTask (env_keys ?E) (call1 ?E)
               (assignedAgent (tasks ex_working ! currentTaskIndex ex_working))
               (tasks ex_working ! currentTaskIndex ex_working)
               (executionContext (take (currentTaskIndex ex_working) (tasks ex_working)))
               (agentPrompts ex_working)
             = Inl ?err)"
    by (simp add: ex_env_fields ex_working_fields ex_exec_blocked)
  from failed_call_pauses_step [OF h1 h2] h1 h2
  show ?thesis
    by (simp add: ex_env_fields ex_working_fields ex_check_working)
qed

subsection \<open>Re-planning\<close>

lemma updateSupervisorPlan_failure:
  assumes "snd (generateContentWithFallback K call SUPERVISOR) = Inl e
           \<or> (\<exists>resp. snd (generateContentWithFallback K call SUPERVISOR) = Inr resp
                 \<and> prs (textOr resp ''[]'') = Inl e)"
  shows "replan_tasks (updateSupervisorPlan K call prs q done rest p) = map rawOfTask rest
         \<and> replan_usage (updateSupervisorPlan K call prs q done rest p) = 0"
  using assms by (auto simp: updateSupervisorPlan_def Let_def)


lemma rawOfTask_pendingTask: "rawOfTask (pendingTask clk i t) = t"
  by (simp add: rawOfTask_def pendingTask_def)

lemma length_pendingTasks: "length (pendingTasks clk raws) = length raws"
  by (simp add: pendingTasks_def)

lemma pendingTasks_nth:
  assumes "j < length raws"
  shows "pendingTasks clk raws ! j = pendingTask clk j (raws ! j)"
  using assms by (simp add: pendingTasks_def nth_enumerate_eq)

lemma pendingTasks_raw: "map rawOfTask (pendingTasks clk raws) = raws"
  by (rule nth_equalityI)
     (simp_all add: length_pendingTasks pendingTasks_nth rawOfTask_pendingTask)

lemma pendingTasks_ids:
  "map id_task (pendingTasks clk raws) = map (\<lambda>j. newTaskId (clk j) j) [0..<length raws]"
  by (rule nth_equalityI)
     (simp_all add: length_pendingTasks pendingTasks_nth pendingTask_def)

lemma pendingTasks_fresh:
  assumes "t \<in> set (pendingTasks clk raws)"
  shows "status_task t = TaskPending \<and> result t = None \<and> usage t = None"
proof -
  from assms obtain j where "j < length raws" "t = pendingTasks clk raws ! j"
    by (auto simp: in_set_conv_nth length_pendingTasks)
  then show ?thesis by (simp add: pendingTasks_nth pendingTask_def)
qed

text \<open>
  A task-execution step that succeeds, leaves at least one task, and is permitted to
  re-plan: the state it commits.
\<close>

lemma replanned_step:
  assumes wk: "status s = Working"
    and more: "currentTaskIndex s + 1 < length (tasks s)"
    and permit1: "fst (checkRateLimit (env_config E) (now1 E) s s)"
    and ex: "executeAgentTask (env_keys E) (call1 E)
           (assignedAgent (tasks s ! currentTaskIndex s)) (tasks s ! currentTaskIndex s)
           (executionContext (take (currentTaskIndex s) (tasks s))) (agentPrompts s) = Inr r"
    and permit2: "fst (checkRateLimit (env_config E) (now2 E)
                         (snd (checkRateLimit (env_config E) (now1 E) s s))
                         (snd (checkRateLimit (env_config E) (now1 E) s s)))"
  shows "\<exists>s8. status s8 = Working \<and> currentTaskIndex s8 = currentTaskIndex s
     \<and> tokenUsage s8
         = tokenUsage (snd (checkRateLimit (env_config E) (now2 E)
                         (snd (checkRateLimit (env_config E) (now1 E) s s))
                         (snd (checkRateLimit (env_config E) (now1 E) s s))))
     \<and> processNextStep E s =
         commitTask (exec_usage r)
           (replan_usage (updateSupervisorPlan (env_keys E) (call2 E) (parse E) (env_query E)
              (take (currentTaskIndex s + 1) (mapAt (currentTaskIndex s) (completedWith r) (tasks s)))
              (drop (currentTaskIndex s + 1) (tasks s)) (agentPrompts s)))
           (take (currentTaskIndex s + 1) (mapAt (currentTaskIndex s) (completedWith r) (tasks s))
              @ pendingTasks (idNow E)
                  (replan_tasks (updateSupervisorPlan (env_keys E) (call2 E) (parse E) (env_query E)
                     (take (currentTaskIndex s + 1)
                        (mapAt (currentTaskIndex s) (completedWith r) (tasks s)))
                     (drop (currentTaskIndex s + 1) (tasks s)) (agentPrompts s))))
           s8"
proof -
  let ?i = "currentTaskIndex s"
  let ?upd = "mapAt ?i (completedWith r) (tasks s)"
  let ?cfg = "env_config E"
  obtain s1 where chk: "checkRateLimit ?cfg (now1 E) s s = (True, s1)"
    using permit1 by (cases "checkRateLimit ?cfg (now1 E) s s") auto
  have lt: "?i < length (tasks s)" using more by simp
  have step: "processNextStep E s = executePhase E s s1"
    using wk lt chk by (simp add: processNextStep_def)
  have st1: "status s1 = Working"
    using checkRateLimit_permit_status [OF chk] wk by simp
  have ix1: "currentTaskIndex s1 = ?i"
    using checkRateLimit_frame(3) [OF chk] .
  obtain s6 where core6: "sameCore s6 s1" and s6: "executePhase E s s1 =
       (if ?i + 1 < length (tasks s) then
          (case checkRateLimit ?cfg (now2 E) s6 s6 of
             (True, s7) \<Rightarrow>
               (case replanPhase E s ?i ?upd s7 of
                  (nextTasks, additionalUsage, s8) \<Rightarrow>
                    commitTask (exec_usage r) additionalUsage nextTasks s8)
           | (False, s7) \<Rightarrow> commitTask (exec_usage r) 0 ?upd s7)
        else commitTask (exec_usage r) 0 ?upd s6)"
    using executePhase_success [OF ex, of s1] by blast
  have p2: "fst (checkRateLimit ?cfg (now2 E) s6 s6)"
    using permit2 core6 checkRateLimit_ref [of s6 s1 ?cfg "now2 E" s6 s1]
    by (simp add: chk sameCore_def)
  then obtain s7 where c2: "checkRateLimit ?cfg (now2 E) s6 s6 = (True, s7)"
    by (cases "checkRateLimit ?cfg (now2 E) s6 s6") auto
  have st7: "status s7 = Working"
    using checkRateLimit_permit_status [OF c2] core6 st1 by (simp add: sameCore_def)
  have ix7: "currentTaskIndex s7 = ?i"
    using checkRateLimit_frame(3) [OF c2] core6 ix1 by (simp add: sameCore_def)
  have tu7: "tokenUsage s7 = tokenUsage (snd (checkRateLimit ?cfg (now2 E) s1 s1))"
    using checkRateLimit_tokenUsage_ref [of s6 s1 s1 s6 ?cfg "now2 E"] core6
    by (simp add: c2 sameCore_def)
  let ?rr = "updateSupervisorPlan (env_keys E) (call2 E) (parse E) (env_query E)
                 (take (?i + 1) ?upd) (drop (?i + 1) ?upd) (agentPrompts s)"
  obtain s8 where core8: "sameCore s8 s7" and rp: "replanPhase E s ?i ?upd s7 =
       (take (?i + 1) ?upd @ pendingTasks (idNow E) (replan_tasks ?rr), replan_usage ?rr, s8)"
    using replanPhase_unfold [of s7 E s ?i ?upd] by blast
  have dr: "drop (?i + 1) ?upd = drop (?i + 1) (tasks s)"
    using lt by (simp add: mapAt_def)
  have res: "processNextStep E s =
        commitTask (exec_usage r) (replan_usage ?rr)
          (take (?i + 1) ?upd @ pendingTasks (idNow E) (replan_tasks ?rr)) s8"
    using more by (simp add: step s6 c2 rp)
  have "status s8 = Working" "currentTaskIndex s8 = ?i"
    "tokenUsage s8 = tokenUsage (snd (checkRateLimit ?cfg (now2 E)
                         (snd (checkRateLimit ?cfg (now1 E) s s))
                         (snd (checkRateLimit ?cfg (now1 E) s s))))"
    using core8 st7 ix7 tu7 by (simp_all add: sameCore_def chk)
  with res show ?thesis
    unfolding dr by blast
qed



text \<open>
  Claim C5, as worded, has a failed re-planning keep the remaining tasks unchanged. The
  caller builds a new task from every element that \<open>updateSupervisorPlan\<close> returns, also
  from the tasks returned as the fallback: after the first of two tasks is executed and
  the re-planning answer does not parse, the remaining task has the id \<open>task-3000-0\<close>
  where it had \<open>task-1000-1\<close>.
\<close>

theorem failed_replan_regenerates_ids:
  "snd (generateContentWithFallback ex_keys call_ok SUPERVISOR) = Inr ex_ok
   \<and> parse (ex_env call_ok call_ok) (textOr ex_ok ''[]'') = Inl ex_syntax_error
   \<and> drop 1 (tasks ex_working) = [ex_task1]
   \<and> id_task ex_task1 = ''task-1000-1''
   \<and> drop 1 (tasks (processNextStep (ex_env call_ok call_ok) ex_working))
       = [ex_task1\<lparr>id_task := ''task-3000-0''\<rparr>]"
proof -
  let ?E = "ex_env call_ok call_ok"
  let ?r = "\<lparr>exec_text = ''done'', exec_sources = [], exec_usage = 120,
            exec_prompt = agentPrompt (assignedAgent (tasks ex_working ! currentTaskIndex ex_working))
              (tasks ex_working ! currentTaskIndex ex_working)
              (executionContext (take (currentTaskIndex ex_working) (tasks ex_working)))
              (agentPrompts ex_working)\<rparr>"
  have h1: "status ex_working = Working"
    by (simp add: ex_working_fields)
  have h2: "currentTaskIndex ex_working + 1 < length (tasks ex_working)"
    by (simp add: ex_working_fields)
  have h3: "fst (checkRateLimit (env_config ?E) (now1 ?E) ex_working ex_working)"
    by (simp add: ex_env_fields ex_check_working)
  have h4: "executeAgentTask (env_keys ?E) (call1 ?E)
           (assignedAgent (tasks ex_working ! currentTaskIndex ex_working))
           (tasks ex_working ! currentTaskIndex ex_working)
           (executionContext (take (currentTaskIndex ex_working) (tasks ex_working)))
           (agentPrompts ex_working) = Inr ?r"
    by (simp add: ex_env_fields ex_exec_ok)
  have h5: "fst (checkRateLimit (env_config ?E) (now2 ?E)
                         (snd (checkRateLimit (env_config ?E) (now1 ?E) ex_working ex_working))
                         (snd (checkRateLimit (env_config ?E) (now1 ?E) ex_working ex_working)))"
    by (simp add: ex_env_fields ex_check_working)
  have ps: "parse ?E (textOr ex_ok ''[]'') = Inl ex_syntax_error"
    by (simp add: ex_env_fields)
  have fl: "snd (generateContentWithFallback (env_keys ?E) (call2 ?E) SUPERVISOR) = Inl ex_syntax_error
           \<or> (\<exists>resp. snd (generateContentWithFallback (env_keys ?E) (call2 ?E) SUPERVISOR) = Inr resp
                 \<and> parse ?E (textOr resp ''[]'') = Inl ex_syntax_error)"
    using ps by (simp add: ex_env_fields ex_gateway_ok)
  obtain s8 where res: "processNextStep ?E ex_working =
         commitTask (exec_usage ?r)
           (replan_usage (updateSupervisorPlan (env_keys ?E) (call2 ?E) (parse ?E) (env_query ?E)
              (take (currentTaskIndex ex_working + 1)
                 (mapAt (currentTaskIndex ex_working) (completedWith ?r) (tasks ex_working)))
              (drop (currentTaskIndex ex_working + 1) (tasks ex_working)) (agentPrompts ex_working)))
           (take (currentTaskIndex ex_working + 1)
              (mapAt (currentTaskIndex ex_working) (completedWith ?r) (tasks ex_working))
              @ pendingTasks (idNow ?E)
                  (replan_tasks (updateSupervisorPlan (env_keys ?E) (call2 ?E) (parse ?E) (env_query ?E)
                     (take (currentTaskIndex ex_working + 1)
                        (mapAt (currentTaskIndex ex_working) (completedWith ?r) (tasks ex_working)))
                     (drop (currentTaskIndex ex_working + 1) (tasks ex_working))
                     (agentPrompts ex_working))))
           s8"
    using replanned_step [OF h1 h2 h3 h4 h5] by blast
  have rr: "replan_tasks (updateSupervisorPlan (env_keys ?E) (call2 ?E) (parse ?E) (env_query ?E)
                     (take (currentTaskIndex ex_working + 1)
                        (mapAt (currentTaskIndex ex_working) (completedWith ?r) (tasks ex_working)))
                     (drop (currentTaskIndex ex_working + 1) (tasks ex_working))
                     (agentPrompts ex_working))
            = map rawOfTask (drop (currentTaskIndex ex_working + 1) (tasks ex_working))"
    using updateSupervisorPlan_failure [OF fl] by simp
  have tl: "drop 1 (tasks (processNextStep ?E ex_working))
              = pendingTasks (\<lambda>i. 3000) [rawOfTask ex_task1]"
    unfolding res rr
    by (simp add: commitTask_fields ex_working_fields ex_env_fields mapAt_def)
  have new: "pendingTasks (\<lambda>i. 3000) [rawOfTask ex_task1] = [ex_task1\<lparr>id_task := ''task-3000-0''\<rparr>]"
    by (simp add: pendingTasks_def pendingTask_def rawOfTask_def newTaskId_def showInt_def
        showNat.simps digitChar_def ex_task1_def)
  show ?thesis
    using ps tl new by (simp add: ex_gateway_ok ex_working_fields ex_task1_def)
qed

text \<open>
  Claim C5, amended. When a task has been executed, at least one task remains, the rate
  limiter permits re-planning, and the re-planning call fails (the gateway throws, or its
  answer does not parse), the mission is not paused: the status stays working and the index
  advances. Nothing is charged for the attempt: the tokens added are those of the executed
  task alone. The remaining tasks keep their number, their order and their title,
  description and assigned agent; each is created anew as a pending task without result or
  usage, with an id built from the clock and its position among the remaining tasks.
\<close>

theorem failed_replan_keeps_plan:
  assumes wk: "status s = Working"
    and more: "currentTaskIndex s + 1 < length (tasks s)"
    and permit1: "fst (checkRateLimit (env_config E) (now1 E) s s)"
    and ex: "executeAgentTask (env_keys E) (call1 E)
           (assignedAgent (tasks s ! currentTaskIndex s)) (tasks s ! currentTaskIndex s)
           (executionContext (take (currentTaskIndex s) (tasks s))) (agentPrompts s) = Inr r"
    and permit2: "fst (checkRateLimit (env_config E) (now2 E)
                         (snd (checkRateLimit (env_config E) (now1 E) s s))
                         (snd (checkRateLimit (env_config E) (now1 E) s s)))"
    and fail: "snd (generateContentWithFallback (env_keys E) (call2 E) SUPERVISOR) = Inl e
           \<or> (\<exists>resp. snd (generateContentWithFallback (env_keys E) (call2 E) SUPERVISOR) = Inr resp
                 \<and> parse E (textOr resp ''[]'') = Inl e)"
  shows "status (processNextStep E s) = Working
     \<and> currentTaskIndex (processNextStep E s) = currentTaskIndex s + 1
     \<and> tokenUsage (processNextStep E s)
         = tokenUsage (snd (checkRateLimit (env_config E) (now2 E)
                         (snd (checkRateLimit (env_config E) (now1 E) s s))
                         (snd (checkRateLimit (env_config E) (now1 E) s s))))
           + exec_usage r + 0
     \<and> length (tasks (processNextStep E s)) = length (tasks s)
     \<and> map rawOfTask (drop (currentTaskIndex s + 1) (tasks (processNextStep E s)))
         = map rawOfTask (drop (currentTaskIndex s + 1) (tasks s))
     \<and> (\<forall>t \<in> set (drop (currentTaskIndex s + 1) (tasks (processNextStep E s))).
           status_task t = TaskPending \<and> result t = None \<and> usage t = None)
     \<and> map id_task (drop (currentTaskIndex s + 1) (tasks (processNextStep E s)))
         = map (\<lambda>j. newTaskId (idNow E j) j) [0..<length (tasks s) - (currentTaskIndex s + 1)]"
proof -
  let ?i = "currentTaskIndex s"
  let ?upd = "mapAt ?i (completedWith r) (tasks s)"
  let ?rr = "updateSupervisorPlan (env_keys E) (call2 E) (parse E) (env_query E)
                 (take (?i + 1) ?upd) (drop (?i + 1) (tasks s)) (agentPrompts s)"
  obtain s8 where s8: "status s8 = Working" "currentTaskIndex s8 = ?i"
      "tokenUsage s8 = tokenUsage (snd (checkRateLimit (env_config E) (now2 E)
                         (snd (checkRateLimit (env_config E) (now1 E) s s))
                         (snd (checkRateLimit (env_config E) (now1 E) s s))))"
    and res0: "processNextStep E s =
        commitTask (exec_usage r) (replan_usage ?rr)
          (take (?i + 1) ?upd @ pendingTasks (idNow E) (replan_tasks ?rr)) s8"
    using replanned_step [OF wk more permit1 ex permit2] by blast
  have rr: "replan_tasks ?rr = map rawOfTask (drop (?i + 1) (tasks s))" "replan_usage ?rr = 0"
    using updateSupervisorPlan_failure [OF fail] by simp_all
  have res: "processNextStep E s =
        commitTask (exec_usage r) 0
          (take (?i + 1) ?upd @ pendingTasks (idNow E) (map rawOfTask (drop (?i + 1) (tasks s)))) s8"
    unfolding res0 rr ..
  have ltk: "length (take (?i + 1) ?upd) = ?i + 1"
    using more by simp
  have dr': "drop (?i + 1) (tasks (processNextStep E s))
               = pendingTasks (idNow E) (map rawOfTask (drop (?i + 1) (tasks s)))"
    using ltk by (simp add: res commitTask_fields)
  have a: "status (processNextStep E s) = Working"
    using s8 by (simp add: res commitTask_fields)
  have b: "currentTaskIndex (processNextStep E s) = ?i + 1"
    using s8 by (simp add: res commitTask_fields)
  have c: "tokenUsage (processNextStep E s)
         = tokenUsage (snd (checkRateLimit (env_config E) (now2 E)
                         (snd (checkRateLimit (env_config E) (now1 E) s s))
                         (snd (checkRateLimit (env_config E) (now1 E) s s))))
           + exec_usage r + 0"
    using s8 by (simp add: res commitTask_fields)
  have d: "length (tasks (processNextStep E s)) = length (tasks s)"
    using more by (simp add: res commitTask_fields length_pendingTasks)
  have e: "map rawOfTask (drop (?i + 1) (tasks (processNextStep E s)))
         = map rawOfTask (drop (?i + 1) (tasks s))"
    by (simp only: dr' pendingTasks_raw)
  have f: "\<forall>t \<in> set (drop (?i + 1) (tasks (processNextStep E s))).
           status_task t = TaskPending \<and> result t = None \<and> usage t = None"
    unfolding dr' using pendingTasks_fresh by blast
  have g: "map id_task (drop (?i + 1) (tasks (processNextStep E s)))
         = map (\<lambda>j. newTaskId (idNow E j) j) [0..<length (tasks s) - (?i + 1)]"
    unfolding dr' by (simp add: pendingTasks_ids)
  from a b c d e f g show ?thesis by blast
qed

text \<open>
  The first of two tasks is executed for 120 tokens and the answer of the re-planning call
  is not valid JSON.
\<close>

theorem failed_replan_keeps_plan_witness:
  "status ex_working = Working
   \<and> currentTaskIndex ex_working + 1 < length (tasks ex_working)
   \<and> fst (checkRateLimit (env_config (ex_env call_ok call_ok)) (now1 (ex_env call_ok call_ok))
            ex_working ex_working)
   \<and> snd (generateContentWithFallback (env_keys (ex_env call_ok call_ok))
            (call2 (ex_env call_ok call_ok)) SUPERVISOR) = Inr ex_ok
   \<and> parse (ex_env call_ok call_ok) (textOr ex_ok ''[]'') = Inl ex_syntax_error
   \<and> status (processNextStep (ex_env call_ok call_ok) ex_working) = Working
   \<and> currentTaskIndex (processNextStep (ex_env call_ok call_ok) ex_working) = 1
   \<and> tokenUsage (processNextStep (ex_env call_ok call_ok) ex_working) = 120
   \<and> map rawOfTask (drop 1 (tasks (processNextStep (ex_env call_ok call_ok) ex_working)))
       = [rawOfTask ex_task1]"
proof -
  let ?E = "ex_env call_ok call_ok"
  let ?r = "\<lparr>exec_text = ''done'', exec_sources = [], exec_usage = 120,
            exec_prompt = agentPrompt (assignedAgent (tasks ex_working ! currentTaskIndex ex_working))
              (tasks ex_working ! currentTaskIndex ex_working)
              (executionContext (take (currentTaskIndex ex_working) (tasks ex_working)))
              (agentPrompts ex_working)\<rparr>"
  have h1: "status ex_working = Working"
    by (simp add: ex_working_fields)
  have h2: "currentTaskIndex ex_working + 1 < length (tasks ex_working)"
    by (simp add: ex_working_fields)
  have h3: "fst (checkRateLimit (env_config ?E) (now1 ?E) ex_working ex_working)"
    by (simp add: ex_env_fields ex_check_working)
  have h4: "executeAgentTask (env_keys ?E) (call1 ?E)
           (assignedAgent (tasks ex_working ! currentTaskIndex ex_working))
           (tasks ex_working ! currentTaskIndex ex_working)
           (executionContext (take (currentTaskIndex ex_working) (tasks ex_working)))
           (agentPrompts ex_working) = Inr ?r"
    by (simp add: ex_env_fields ex_exec_ok)
  have h5: "fst (checkRateLimit (env_config ?E) (now2 ?E)
                         (snd (checkRateLimit (env_config ?E) (now1 ?E) ex_working ex_working))
                         (snd (checkRateLimit (env_config ?E) (now1 ?E) ex_working ex_working)))"
    by (simp add: ex_env_fields ex_check_working)
  have gw: "snd (generateContentWithFallback (env_keys ?E) (call2 ?E) SUPERVISOR) = Inr ex_ok"
    by (simp add: ex_env_fields ex_gateway_ok)
  have ps: "parse ?E (textOr ex_ok ''[]'') = Inl ex_syntax_error"
    by (simp add: ex_env_fields)
  have h6: "snd (generateContentWithFallback (env_keys ?E) (call2 ?E) SUPERVISOR) = Inl ex_syntax_error
           \<or> (\<exists>resp. snd (generateContentWithFallback (env_keys ?E) (call2 ?E) SUPERVISOR) = Inr resp
                 \<and> parse ?E (textOr resp ''[]'') = Inl ex_syntax_error)"
    using gw ps by simp
  from failed_replan_keeps_plan [OF h1 h2 h3 h4 h5 h6] h1 h2 h3 gw ps
  show ?thesis
    by (simp add: ex_env_fields ex_working_fields ex_check_working)
qed

subsection \<open>The task index\<close>

lemma planningPhase_index:
  assumes "currentTaskIndex s \<le> length (tasks s)"
  shows "currentTaskIndex (planningPhase E current s) \<le> length (tasks (planningPhase E current s))"
  using assms
  by (simp add: planningPhase_def Let_def stepCatch_frame addLog_frame split: sum.splits)

text \<open>
  A step that runs alone, with no other step in flight. Taken while the status is working,
  it leaves \<open>currentTaskIndex\<close> or raises it by one; from any state, an index that did not
  exceed the number of tasks still does not exceed it. Pausing, stopping the timer,
  resuming and a timer tick leave the index alone; a confirmed restart sets it to 0.
\<close>

lemma isolated_step_index:
  "(status s = Working \<longrightarrow>
      currentTaskIndex s \<le> currentTaskIndex (processNextStep E s)
      \<and> currentTaskIndex (processNextStep E s) \<le> currentTaskIndex s + 1)
   \<and> (currentTaskIndex s \<le> length (tasks s) \<longrightarrow>
      currentTaskIndex (processNextStep E s) \<le> length (tasks (processNextStep E s)))
   \<and> currentTaskIndex (handleRestart True t0 now s) = 0
   \<and> currentTaskIndex (handlePause cfg now s) = currentTaskIndex s
   \<and> currentTaskIndex (handleStopTimer s) = currentTaskIndex s
   \<and> currentTaskIndex (handleResume s) = currentTaskIndex s
   \<and> currentTaskIndex (cooldownTick now now' s s) = currentTaskIndex s"
proof -
  obtain ok s1 where chk: "checkRateLimit (env_config E) (now1 E) s s = (ok, s1)"
    by (cases "checkRateLimit (env_config E) (now1 E) s s")
  note fr = checkRateLimit_frame [OF chk]
  have mono: "currentTaskIndex s \<le> currentTaskIndex (processNextStep E s)
      \<and> currentTaskIndex (processNextStep E s) \<le> currentTaskIndex s + 1"
    if wk: "status s = Working"
  proof (cases ok)
    case False
    then have "processNextStep E s = s1"
      using wk chk by (simp add: processNextStep_def)
    then show ?thesis using fr by simp
  next
    case True
    show ?thesis
    proof (cases "currentTaskIndex s \<ge> length (tasks s)")
      case True
      then have "processNextStep E s = synthesisPhase E s s1"
        using wk chk \<open>ok\<close> by (simp add: processNextStep_def)
      then show ?thesis
        using synthesisPhase_frame [of E s s1] fr by simp
    next
      case False
      then have lt: "currentTaskIndex s < length (tasks s)" by simp
      have "processNextStep E s = executePhase E s s1"
        using wk chk \<open>ok\<close> False by (simp add: processNextStep_def)
      then show ?thesis
        using executePhase_index [OF lt fr(3) fr(1), of E] by simp
    qed
  qed
  have bound: "currentTaskIndex (processNextStep E s) \<le> length (tasks (processNextStep E s))"
    if le: "currentTaskIndex s \<le> length (tasks s)"
  proof (cases "status s \<noteq> Working \<and> status s \<noteq> Planning")
    case True
    then show ?thesis using le by (simp add: processNextStep_def)
  next
    case active: False
    show ?thesis
    proof (cases ok)
      case False
      then have "processNextStep E s = s1"
        using active chk by (auto simp: processNextStep_def)
      then show ?thesis using fr le by simp
    next
      case True
      have le1: "currentTaskIndex s1 \<le> length (tasks s1)"
        using fr le by simp
      show ?thesis
      proof (cases "status s = Planning")
        case True
        then have "processNextStep E s = planningPhase E s s1"
          using chk \<open>ok\<close> by (simp add: processNextStep_def)
        then show ?thesis using planningPhase_index [OF le1, of E s] by simp
      next
        case False
        show ?thesis
        proof (cases "currentTaskIndex s \<ge> length (tasks s)")
          case True
          then have "processNextStep E s = synthesisPhase E s s1"
            using active False chk \<open>ok\<close> by (simp add: processNextStep_def)
          then show ?thesis
            using synthesisPhase_frame [of E s s1] le1 by simp
        next
          case nf: False
          then have lt: "currentTaskIndex s < length (tasks s)" by simp
          have "processNextStep E s = executePhase E s s1"
            using active False chk \<open>ok\<close> nf by (simp add: processNextStep_def)
          then show ?thesis
            using executePhase_index [OF lt fr(3) fr(1), of E] by simp
        qed
      qed
    qed
  qed
  have rest: "currentTaskIndex (handleRestart True t0 now s) = 0
     \<and> currentTaskIndex (handlePause cfg now s) = currentTaskIndex s
     \<and> currentTaskIndex (handleStopTimer s) = currentTaskIndex s
     \<and> currentTaskIndex (handleResume s) = currentTaskIndex s
     \<and> currentTaskIndex (cooldownTick now now' s s) = currentTaskIndex s"
    by (simp add: handleRestart_def INITIAL_STATE_def handlePause_def handleStopTimer_def
        handleResume_def cooldownTick_def Let_def)
  from mono bound rest show ?thesis by blast
qed

text \<open>The two halves of the task-execution branch make up the step that runs alone.\<close>

lemma executePhase_split:
  "executePhase E current s = finishStep E current (executeBefore E current s)"
  by (simp add: executePhase_def finishStep_def executeBefore_def executeAfter_def
      awaitedExecution_def Let_def split: sum.splits)

lemma processNextStep_split:
  assumes "status current = Working" and "currentTaskIndex current < length (tasks current)"
  shows "processNextStep E current =
           (case startStep E current of
              Some rendered \<Rightarrow> finishStep E current rendered
            | None \<Rightarrow> snd (checkRateLimit (env_config E) (now1 E) current current))"
  using assms
  by (simp add: processNextStep_def startStep_def executePhase_split split: prod.splits bool.splits)

lemma executeBefore_frame:
  "status (executeBefore E current s) = status s"
  "currentTaskIndex (executeBefore E current s) = currentTaskIndex s"
  "tokenUsage (executeBefore E current s) = tokenUsage s"
  "windowStartTime (executeBefore E current s) = windowStartTime s"
  "agentPrompts (executeBefore E current s) = agentPrompts s"
  "tasks (executeBefore E current s)
     = mapAt (currentTaskIndex current) (\<lambda>t. t\<lparr>status_task := TaskInProgress\<rparr>) (tasks s)"
  by (simp_all add: executeBefore_def Let_def addLog_frame)

lemma executeAfter_last_task:
  assumes "length (tasks current) \<le> currentTaskIndex current + 1"
  shows "summary (executeAfter E current r s)
           = (status s, currentTaskIndex s + 1, tokenUsage s + exec_usage r,
              length (tasks current))"
    and "status (executeAfter E current r s) = status s"
    and "currentTaskIndex (executeAfter E current r s) = currentTaskIndex s + 1"
    and "tokenUsage (executeAfter E current r s) = tokenUsage s + exec_usage r"
  using assms
  by (simp_all add: executeAfter_def Let_def summary_def commitTask_fields addLog_frame)

lemma ex_resumed_fields:
  "status ex_resumed = Working" "tasks ex_resumed = [ex_task0]"
  "currentTaskIndex ex_resumed = 0" "tokenUsage ex_resumed = 500"
  "windowStartTime ex_resumed = 1000"
  by (simp_all add: ex_resumed_def)

lemma ex_env_at_fields:
  "env_keys (ex_env_at t) = ex_keys" "env_config (ex_env_at t) = ex_cfg"
  "now1 (ex_env_at t) = t" "now2 (ex_env_at t) = t" "call1 (ex_env_at t) = call_ok"
  by (simp_all add: ex_env_at_def ex_env_def)

lemma ex_awaited_ok:
  "\<exists>r. awaitedExecution (ex_env_at t) current = Inr r \<and> exec_usage r = 120"
  by (simp add: awaitedExecution_def Let_def ex_env_at_fields ex_exec_ok)

text \<open>
  Claim C8. The specification has \<open>currentTaskIndex\<close> never exceed the number of tasks,
  and at most one step in flight. Nothing holds a second step back while the first waits
  for its call, and each step commits \<open>s.currentTaskIndex + 1\<close> on whatever is pending. A
  mission with one task and 500 tokens counted is resumed after its window has run out:
  the rate-limit check of the step at 70000 resets the count to 0, which re-arms the
  pacing effect, and one second later a second step starts on the same task. When both
  calls have returned the task has been executed twice, 240 tokens are counted and the
  index is 2 with a single task in the list. The same step running alone ends with index 1
  and 120 tokens.
\<close>

theorem overlapping_steps_advance_twice:
  "summary ex_resumed = (Working, 0, 500, 1)
   \<and> summary (processNextStep (ex_env_at 70000) ex_resumed) = (Working, 1, 120, 1)
   \<and> map_option summary (startStep (ex_env_at 70000) ex_resumed) = Some (Working, 0, 0, 1)
   \<and> map_option (pacingRearmed ex_resumed) (startStep (ex_env_at 70000) ex_resumed) = Some True
   \<and> map_option summary (overlappedRun (ex_env_at 70000) (ex_env_at 71000) ex_resumed)
       = Some (Working, 2, 240, 1)"
proof -
  let ?E1 = "ex_env_at 70000"
  let ?E2 = "ex_env_at 71000"
  let ?s1 = "ex_resumed\<lparr>tokenUsage := 0, windowStartTime := 70000, status := Working\<rparr>"
  let ?a = "executeBefore ?E1 ex_resumed ?s1"
  let ?b = "executeBefore ?E2 ?a ?a"
  have c1: "checkRateLimit ex_cfg 70000 ex_resumed ex_resumed = (True, ?s1)"
    by (simp add: checkRateLimit_def Let_def ex_cfg_def ex_resumed_fields)
  have start1: "startStep ?E1 ex_resumed = Some ?a"
    by (simp add: startStep_def ex_env_at_fields ex_resumed_fields c1)
  have a_fields: "status ?a = Working" "currentTaskIndex ?a = 0" "tokenUsage ?a = 0"
    "windowStartTime ?a = 70000" "length (tasks ?a) = 1"
    by (simp_all add: executeBefore_frame ex_resumed_fields)
  have c2: "checkRateLimit ex_cfg 71000 ?a ?a = (True, ?a)"
    by (simp add: checkRateLimit_def Let_def ex_cfg_def thresholdReached_def a_fields)
  have start2: "startStep ?E2 ?a = Some ?b"
    by (simp add: startStep_def ex_env_at_fields a_fields c2)
  have b_fields: "status ?b = Working" "currentTaskIndex ?b = 0" "tokenUsage ?b = 0"
    by (simp_all add: executeBefore_frame ex_resumed_fields)
  have rearm: "pacingRearmed ex_resumed ?a"
    by (simp add: pacingRearmed_def a_fields ex_resumed_fields)
  obtain r1 where r1: "awaitedExecution ?E1 ex_resumed = Inr r1" "exec_usage r1 = 120"
    using ex_awaited_ok by blast
  obtain r2 where r2: "awaitedExecution ?E2 ?a = Inr r2" "exec_usage r2 = 120"
    using ex_awaited_ok by blast
  have last1: "length (tasks ex_resumed) \<le> currentTaskIndex ex_resumed + 1"
    by (simp add: ex_resumed_fields)
  have last2: "length (tasks ?a) \<le> currentTaskIndex ?a + 1"
    by (simp add: a_fields)
  let ?f1 = "finishStep ?E1 ex_resumed ?b"
  have f1: "status ?f1 = Working" "currentTaskIndex ?f1 = 1" "tokenUsage ?f1 = 120"
    using executeAfter_last_task(2-4) [OF last1, of ?E1 r1 ?b] r1 b_fields
    by (simp_all add: finishStep_def)
  have f2: "summary (finishStep ?E2 ?a ?f1) = (Working, 2, 240, 1)"
    using executeAfter_last_task(1) [OF last2, of ?E2 r2 ?f1] r2 f1 a_fields
    by (simp add: finishStep_def)
  have run: "overlappedRun ?E1 ?E2 ex_resumed = Some (finishStep ?E2 ?a ?f1)"
    using rearm by (simp add: overlappedRun_def start1 start2)
  have alone: "summary (processNextStep ?E1 ex_resumed) = (Working, 1, 120, 1)"
  proof -
    have "processNextStep ?E1 ex_resumed = finishStep ?E1 ex_resumed ?a"
      using processNextStep_split [of ex_resumed ?E1] by (simp add: ex_resumed_fields start1)
    moreover have "summary (finishStep ?E1 ex_resumed ?a) = (Working, 1, 120, 1)"
      using executeAfter_last_task(1) [OF last1, of ?E1 r1 ?a] r1 a_fields
      by (simp add: finishStep_def ex_resumed_fields)
    ultimately show ?thesis by simp
  qed
  have s0: "summary ex_resumed = (Working, 0, 500, 1)"
    by (simp add: summary_def ex_resumed_fields)
  have sa: "summary ?a = (Working, 0, 0, 1)"
    by (simp add: summary_def a_fields)
  show ?thesis
    using s0 alone sa rearm f2 by (simp add: start1 run)
qed

subsection \<open>Final synthesis\<close>

text \<open>
  Claim C10. When every task has been executed and the rate limiter permits the call, the
  step ends with the status completed and a final output that is not null, whatever the
  model call does. If the call fails, the final output is the text
  \<open>Error generating final output: \<close> followed by the error, and the call adds zero tokens:
  the counter is what the window bookkeeping of the two rate-limit checks left, 0 after a
  window reset and the old count otherwise.
\<close>

theorem synthesis_always_completes:
  assumes wk: "status s = Working"
    and fin: "length (tasks s) \<le> currentTaskIndex s"
    and permit1: "fst (checkRateLimit (env_config E) (now1 E) s s)"
    and permit2: "fst (checkRateLimit (env_config E) (now2 E) s s)"
  shows "status (processNextStep E s) = Completed
     \<and> finalOutput (processNextStep E s) \<noteq> None
     \<and> (\<forall>e. snd (generateContentWithFallback (env_keys E) (call1 E) SUPERVISOR) = Inl e \<longrightarrow>
           finalOutput (processNextStep E s)
             = Some (''Error generating final output: '' @ err_string e)
           \<and> tokenUsage (processNextStep E s)
               = (if now1 E - windowStartTime s > periodMs (env_config E)
                     \<or> now2 E - windowStartTime s > periodMs (env_config E)
                  then 0 else tokenUsage s) + 0)"
proof -
  let ?cfg = "env_config E"
  obtain s1 where chk: "checkRateLimit ?cfg (now1 E) s s = (True, s1)"
    using permit1 by (cases "checkRateLimit ?cfg (now1 E) s s") auto
  let ?s2 = "addLog (stamp E) SUPERVISOR ''All tasks completed. Compiling final report...''
                 LogInfo None s1"
  have "fst (checkRateLimit ?cfg (now2 E) s ?s2)"
    using permit2 checkRateLimit_fst [of ?cfg "now2 E" s ?s2 s] by simp
  then obtain s3 where c2: "checkRateLimit ?cfg (now2 E) s ?s2 = (True, s3)"
    by (cases "checkRateLimit ?cfg (now2 E) s ?s2") auto
  have tu1: "tokenUsage s1 = (if now1 E - windowStartTime s > periodMs ?cfg then 0 else tokenUsage s)"
    using checkRateLimit_tokenUsage [OF chk] .
  have tu3: "tokenUsage s3 = (if now2 E - windowStartTime s > periodMs ?cfg then 0 else tokenUsage s1)"
    using checkRateLimit_tokenUsage [OF c2] by (simp add: addLog_frame)
  let ?r = "superviseFinalOutput (env_keys E) (call1 E) (synthesisContext (tasks s)) (agentPrompts s)"
  have step: "processNextStep E s =
      addLog (stamp E) SUPERVISOR
        (''Final output delivered. (Used '' @ showInt (final_usage ?r) @ '' tokens)'') LogResult None
        ((addLog (stamp E) SUPERVISOR (''[SYSTEM] Final Synthesis Prompt:'' @ nl @ final_prompt ?r)
            LogInfo None s3)
           \<lparr>status := Completed, finalOutput := Some (final_text ?r),
             tokenUsage := tokenUsage (addLog (stamp E) SUPERVISOR
                 (''[SYSTEM] Final Synthesis Prompt:'' @ nl @ final_prompt ?r) LogInfo None s3)
               + final_usage ?r\<rparr>)"
    using wk fin chk c2 by (simp add: processNextStep_def synthesisPhase_def Let_def)
  have a: "status (processNextStep E s) = Completed"
    by (simp add: step addLog_frame)
  have b: "finalOutput (processNextStep E s) = Some (final_text ?r)"
    by (simp add: step addLog_frame)
  have c: "tokenUsage (processNextStep E s) = tokenUsage s3 + final_usage ?r"
    by (simp add: step addLog_frame)
  have d: "final_text ?r = ''Error generating final output: '' @ err_string e \<and> final_usage ?r = 0"
    if "snd (generateContentWithFallback (env_keys E) (call1 E) SUPERVISOR) = Inl e" for e
    using that by (simp add: superviseFinalOutput_def)
  show ?thesis
    using a b c d tu1 tu3 by auto
qed

text \<open>Both tasks are done and every key answers the synthesis call with status 503.\<close>

theorem synthesis_always_completes_witness:
  "status ex_all_done = Working
   \<and> length (tasks ex_all_done) \<le> currentTaskIndex ex_all_done
   \<and> fst (checkRateLimit (env_config (ex_env call_unavailable call_ok))
            (now1 (ex_env call_unavailable call_ok)) ex_all_done ex_all_done)
   \<and> fst (checkRateLimit (env_config (ex_env call_unavailable call_ok))
            (now2 (ex_env call_unavailable call_ok)) ex_all_done ex_all_done)
   \<and> snd (generateContentWithFallback (env_keys (ex_env call_unavailable call_ok))
            (call1 (ex_env call_unavailable call_ok)) SUPERVISOR) = Inl ex_server_error
   \<and> status (processNextStep (ex_env call_unavailable call_ok) ex_all_done) = Completed
   \<and> finalOutput (processNextStep (ex_env call_unavailable call_ok) ex_all_done)
       = Some ''Error generating final output: ApiError: Service unavailable''
   \<and> tokenUsage (processNextStep (ex_env call_unavailable call_ok) ex_all_done) = 320"
proof -
  let ?E = "ex_env call_unavailable call_ok"
  have h1: "status ex_all_done = Working"
    by (simp add: ex_all_done_fields)
  have h2: "length (tasks ex_all_done) \<le> currentTaskIndex ex_all_done"
    by (simp add: ex_all_done_fields)
  have h3: "fst (checkRateLimit (env_config ?E) (now1 ?E) ex_all_done ex_all_done)"
    by (simp add: ex_env_fields ex_check_all_done)
  have h4: "fst (checkRateLimit (env_config ?E) (now2 ?E) ex_all_done ex_all_done)"
    by (simp add: ex_env_fields ex_check_all_done)
  have gw: "snd (generateContentWithFallback (env_keys ?E) (call1 ?E) SUPERVISOR) = Inl ex_server_error"
    by (simp add: ex_env_fields ex_gateway_unavailable)
  from synthesis_always_completes [OF h1 h2 h3 h4] gw h1 h2 h3 h4
  show ?thesis
    by (simp add: ex_env_fields ex_all_done_fields ex_cfg_def ex_server_error_def)
qed

end
